theory Spec2Isabelle
  imports Complex_Main "HOL-Library.Word"
begin

unbundle bit_operations_syntax

section \<open>Python values shared by the embedded functions\<close>

text \<open>
  The embedding follows \<^verbatim>\<open>pysoem_tset.py\<close>. Python integers are \<^typ>\<open>int\<close>, the bytes of
  a process-data buffer are \<^typ>\<open>8 word\<close>, and the float constant
  \<^verbatim>\<open>ETHERCAT_CYCLE_TIME_MS\<close> (2.0 in the source) is a parameter \<open>p\<close> of type \<^typ>\<open>rat\<close>, the
  cycle period in milliseconds. A quotient such as \<^verbatim>\<open>4000 / ETHERCAT_CYCLE_TIME_MS\<close> is taken
  exactly; for the configured 2.0 ms (and every period that divides the durations) the float
  quotient is exact as well.

  Every \<^verbatim>\<open>raise\<close> the modelled code can meet is a value of \<open>py_exc\<close>; all of them are
  subclasses of Python's \<^verbatim>\<open>Exception\<close>. A call into the fieldbus master either returns or
  raises: \<open>py_result\<close>.
\<close>

datatype py_exc = ZeroDivisionError | OverflowError | ValueError | MasterError

datatype 'a py_result = Raised py_exc | Returned 'a

type_synonym byte = "8 word"

text \<open>\<^verbatim>\<open>int(x)\<close> on a float truncates towards zero.\<close>

definition py_int :: "rat \<Rightarrow> int" where
  "py_int x = (if 0 \<le> x then \<lfloor>x\<rfloor> else \<lceil>x\<rceil>)"

text \<open>
  The module-level variables \<^verbatim>\<open>_thread_controlword\<close>, \<^verbatim>\<open>_thread_target_torque\<close> and
  \<^verbatim>\<open>_thread_mode_of_operation\<close>: written by the state machine of
  \<^verbatim>\<open>cyclic_operation_cst\<close>, read by \<^verbatim>\<open>data_exchange_worker\<close>.
\<close>

record shared_vars =
  thread_controlword :: int
  thread_target_torque :: int
  thread_mode_of_operation :: int

section \<open>The drive state machine of \<^verbatim>\<open>cyclic_operation_cst\<close>\<close>

text \<open>
  The locals of the loop: \<^verbatim>\<open>step\<close>, \<^verbatim>\<open>print_count\<close> and \<^verbatim>\<open>fault_cleared\<close>, on top of the
  shared variables.
\<close>

record cst_state = shared_vars +
  step :: int
  print_count :: int
  fault_cleared :: bool

text \<open>
  The thresholds, recomputed in every iteration from the period:
  \<^verbatim>\<open>base_duration_steps = int(4000 / ETHERCAT_CYCLE_TIME_MS)\<close>,
  \<^verbatim>\<open>fault_reset_duration = int(base_duration_steps * 0.5) if has_non_critical_error else base_duration_steps\<close>,
  and the three \<^verbatim>\<open>elif\<close> bounds \<^verbatim>\<open>fault_reset_duration + int(N / ETHERCAT_CYCLE_TIME_MS)\<close>
  for N = 1000, 2000, 3000. The flag \<open>nce\<close> is \<^verbatim>\<open>has_non_critical_error\<close>, fixed before the
  loop starts.
\<close>

definition base_duration_steps :: "rat \<Rightarrow> int" where
  "base_duration_steps p = py_int (4000 / p)"

definition fault_reset_duration :: "rat \<Rightarrow> bool \<Rightarrow> int" where
  "fault_reset_duration p nce =
     (if nce then py_int (of_int (base_duration_steps p) * (1 / 2))
      else base_duration_steps p)"

definition shutdown_threshold :: "rat \<Rightarrow> bool \<Rightarrow> int" where
  "shutdown_threshold p nce = fault_reset_duration p nce + py_int (1000 / p)"

definition switch_on_threshold :: "rat \<Rightarrow> bool \<Rightarrow> int" where
  "switch_on_threshold p nce = fault_reset_duration p nce + py_int (2000 / p)"

definition enable_operation_threshold :: "rat \<Rightarrow> bool \<Rightarrow> int" where
  "enable_operation_threshold p nce = fault_reset_duration p nce + py_int (3000 / p)"

text \<open>
  The \<^verbatim>\<open>if\<close>/\<^verbatim>\<open>elif\<close> chain on \<^verbatim>\<open>step\<close> (source lines 1311 to 1343). In the first branch
  the status word read from the first slave (\<open>None\<close> when its input buffer is shorter than
  12 bytes) only decides the logging flag \<^verbatim>\<open>fault_cleared\<close>.
\<close>

definition select_stage :: "rat \<Rightarrow> bool \<Rightarrow> int option \<Rightarrow> cst_state \<Rightarrow> cst_state" where
  "select_stage p nce current_statusword st =
     (if step st \<le> fault_reset_duration p nce then
        st\<lparr>thread_controlword := 0x0080, thread_target_torque := 0,
           fault_cleared :=
             (case current_statusword of
                None \<Rightarrow> fault_cleared st
              | Some sw \<Rightarrow>
                  if sw AND 0x0008 = 0 then True
                  else if nce \<and> (of_int (step st) :: rat) > of_int (fault_reset_duration p nce) * (1 / 2)
                  then True
                  else fault_cleared st)\<rparr>
      else if step st \<le> shutdown_threshold p nce then
        st\<lparr>thread_controlword := 0x0006, thread_target_torque := 0\<rparr>
      else if step st \<le> switch_on_threshold p nce then
        st\<lparr>thread_controlword := 0x0007, thread_target_torque := 0\<rparr>
      else if step st \<le> enable_operation_threshold p nce then
        st\<lparr>thread_controlword := 0x000F, thread_target_torque := 0\<rparr>
      else
        st\<lparr>thread_controlword := 0x000F, thread_target_torque := 50\<rparr>)"

text \<open>
  One iteration of the \<^verbatim>\<open>while\<close> body. The division by the period raises
  \<^verbatim>\<open>ZeroDivisionError\<close> when the period is 0. After the stage is selected the mode is pinned to
  10, \<^verbatim>\<open>print_count\<close> wraps at 100 (the diagnostics it triggers only print), and the step
  counter is incremented while it is below 25000.
\<close>

definition cst_iteration :: "rat \<Rightarrow> bool \<Rightarrow> int option \<Rightarrow> cst_state \<Rightarrow> py_exc + cst_state" where
  "cst_iteration p nce current_statusword st =
     (if p = 0 then Inl ZeroDivisionError
      else
        let st1 = select_stage p nce current_statusword st;
            st2 = st1\<lparr>thread_mode_of_operation := 10\<rparr>;
            pc = print_count st2 + 1;
            st3 = st2\<lparr>print_count := (if pc \<ge> 100 then 0 else pc)\<rparr>
        in Inr (st3\<lparr>step := (if step st3 < 25000 then step st3 + 1 else step st3)\<rparr>))"

text \<open>
  The loop runs while the wall clock allows (\<^verbatim>\<open>time.time() - start_time < duration\<close>); the list
  holds the status word observed in each iteration the clock lets through. Each iteration
  ends with \<^verbatim>\<open>time.sleep(ETHERCAT_CYCLE_TIME_MS / 1000.0)\<close>, which raises \<^verbatim>\<open>ValueError\<close> for a
  negative duration, after the variables were written. An exception leaves the loop
  (\<^verbatim>\<open>except Exception\<close> around the \<^verbatim>\<open>while\<close>). \<open>cst_loop\<close> is the final state, \<open>cst_writes\<close>
  the record of the run: for each iteration that reached its writes, the value of \<^verbatim>\<open>step\<close> it
  compared, and the control word and target torque it left in the shared variables.
\<close>

fun cst_loop :: "rat \<Rightarrow> bool \<Rightarrow> int option list \<Rightarrow> cst_state \<Rightarrow> cst_state" where
  "cst_loop p nce [] st = st"
| "cst_loop p nce (sw # sws) st =
     (case cst_iteration p nce sw st of
        Inl e \<Rightarrow> st
      | Inr st' \<Rightarrow> if p / 1000 < 0 then st' else cst_loop p nce sws st')"

fun cst_writes :: "rat \<Rightarrow> bool \<Rightarrow> int option list \<Rightarrow> cst_state \<Rightarrow> (int \<times> int \<times> int) list" where
  "cst_writes p nce [] st = []"
| "cst_writes p nce (sw # sws) st =
     (case cst_iteration p nce sw st of
        Inl e \<Rightarrow> []
      | Inr st' \<Rightarrow>
          (step st, thread_controlword st', thread_target_torque st')
            # (if p / 1000 < 0 then [] else cst_writes p nce sws st'))"

text \<open>
  The state at loop entry (source lines 1252 to 1256 and 1271 to 1273): the control word is
  forced to 0x0080 unless it already is, and the counters start at 0.
\<close>

definition cst_start :: "shared_vars \<Rightarrow> cst_state" where
  "cst_start g =
     (if thread_controlword g \<noteq> 0x0080 then
        \<lparr>thread_controlword = 0x0080, thread_target_torque = 0, thread_mode_of_operation = 10,
         step = 0, print_count = 0, fault_cleared = False\<rparr>
      else
        \<lparr>thread_controlword = thread_controlword g, thread_target_torque = thread_target_torque g,
         thread_mode_of_operation = thread_mode_of_operation g,
         step = 0, print_count = 0, fault_cleared = False\<rparr>)"

text \<open>
  The pair an iteration writes depends on the step value alone: \<open>stage_index\<close> is the index
  of the branch the chain takes (0 fault reset, 1 shutdown, 2 switch on, 3 enable operation,
  4 running), \<open>stage_output\<close> the control word and torque of that branch.
\<close>

definition stage_index :: "rat \<Rightarrow> bool \<Rightarrow> int \<Rightarrow> nat" where
  "stage_index p nce s =
     (if s \<le> fault_reset_duration p nce then 0
      else if s \<le> shutdown_threshold p nce then 1
      else if s \<le> switch_on_threshold p nce then 2
      else if s \<le> enable_operation_threshold p nce then 3
      else 4)"

definition stage_output :: "nat \<Rightarrow> int \<times> int" where
  "stage_output k =
     (if k = 0 then (0x0080, 0) else if k = 1 then (0x0006, 0) else if k = 2 then (0x0007, 0)
      else if k = 3 then (0x000F, 0) else (0x000F, 50))"

section \<open>The working-counter statistics of \<^verbatim>\<open>cyclic_operation\<close>\<close>

text \<open>
  The running totals are locals of \<^verbatim>\<open>cyclic_operation\<close>: \<^verbatim>\<open>cycle_count\<close>,
  \<^verbatim>\<open>success_count\<close>, \<^verbatim>\<open>timeout_count\<close> and \<^verbatim>\<open>low_wkc_count\<close>, all 0 when the loop starts.
\<close>

record wkc_stats =
  cycle_count :: int
  success_count :: int
  timeout_count :: int
  low_wkc_count :: int

definition cyclic_start :: wkc_stats where
  "cyclic_start = \<lparr>cycle_count = 0, success_count = 0, timeout_count = 0, low_wkc_count = 0\<rparr>"

text \<open>
  The analysis of one returned working counter (source lines 1466 to 1485), an
  \<^verbatim>\<open>if\<close>/\<^verbatim>\<open>elif\<close>/\<^verbatim>\<open>elif\<close> chain without a final \<^verbatim>\<open>else\<close>; \<open>expected\<close> is
  \<^verbatim>\<open>master.expected_wkc\<close>.
\<close>

definition analyze_wkc :: "int \<Rightarrow> int \<Rightarrow> wkc_stats \<Rightarrow> wkc_stats" where
  "analyze_wkc wkc expected s =
     (if wkc = - 1 then s\<lparr>timeout_count := timeout_count s + 1\<rparr>
      else if wkc < expected then s\<lparr>low_wkc_count := low_wkc_count s + 1\<rparr>
      else if wkc \<ge> expected then
        s\<lparr>cycle_count := cycle_count s + 1, success_count := success_count s + 1\<rparr>
      else s)"

text \<open>\<^verbatim>\<open>total_attempts = success_count + timeout_count + low_wkc_count\<close> (source line 1551).\<close>

definition total_attempts :: "wkc_stats \<Rightarrow> int" where
  "total_attempts s = success_count s + timeout_count s + low_wkc_count s"

text \<open>
  What the master does in one iteration of the loop: \<^verbatim>\<open>send_processdata\<close> and
  \<^verbatim>\<open>receive_processdata\<close> return or raise, and so do the calls that follow the analysis
  (\<^verbatim>\<open>read_state\<close> in the diagnostics, and the \<^verbatim>\<open>time.sleep\<close> that ends the iteration).
\<close>

record cycle_obs =
  send_result :: "int py_result"
  recv_wkc :: "int py_result"
  later_calls :: "unit py_result"

text \<open>
  The loop of \<^verbatim>\<open>cyclic_operation\<close>, one list element per iteration the clock lets through; an
  exception leaves the loop with the totals as they stand. \<open>cyclic_operation_stats\<close> lists
  the totals after each analysed receive call of the run.
\<close>

fun cyclic_operation_loop :: "int \<Rightarrow> cycle_obs list \<Rightarrow> wkc_stats \<Rightarrow> wkc_stats" where
  "cyclic_operation_loop expected [] s = s"
| "cyclic_operation_loop expected (ob # obs) s =
     (case send_result ob of
        Raised e \<Rightarrow> s
      | Returned send_res \<Rightarrow>
          (case recv_wkc ob of
             Raised e \<Rightarrow> s
           | Returned wkc \<Rightarrow>
               (case later_calls ob of
                  Raised e \<Rightarrow> analyze_wkc wkc expected s
                | Returned u \<Rightarrow> cyclic_operation_loop expected obs (analyze_wkc wkc expected s))))"

fun cyclic_operation_stats :: "int \<Rightarrow> cycle_obs list \<Rightarrow> wkc_stats \<Rightarrow> wkc_stats list" where
  "cyclic_operation_stats expected [] s = []"
| "cyclic_operation_stats expected (ob # obs) s =
     (case send_result ob of
        Raised e \<Rightarrow> []
      | Returned send_res \<Rightarrow>
          (case recv_wkc ob of
             Raised e \<Rightarrow> []
           | Returned wkc \<Rightarrow>
               (case later_calls ob of
                  Raised e \<Rightarrow> [analyze_wkc wkc expected s]
                | Returned u \<Rightarrow>
                    analyze_wkc wkc expected s
                      # cyclic_operation_stats expected obs (analyze_wkc wkc expected s))))"

section \<open>The output frame and \<^verbatim>\<open>data_exchange_worker\<close>\<close>

text \<open>
  \<^verbatim>\<open>v.to_bytes(n, 'little')\<close> and \<^verbatim>\<open>v.to_bytes(n, 'little', signed=True)\<close>: \<open>None\<close> is the
  \<^verbatim>\<open>OverflowError\<close> of a value that does not fit; otherwise the result is the \<open>n\<close> low
  bytes of the value (in two's complement for a negative one), least significant first. \<^verbatim>\<open>int.from_bytes\<close> is their inverse, used
  by the diagnostics of \<^verbatim>\<open>cyclic_operation_cst\<close> to read the frame back.
\<close>

definition little_endian_bytes :: "int \<Rightarrow> nat \<Rightarrow> byte list" where
  "little_endian_bytes v n = map (\<lambda>i. word_of_int (v div 256 ^ i)) [0..<n]"

definition to_bytes_little :: "int \<Rightarrow> nat \<Rightarrow> byte list option" where
  "to_bytes_little v n =
     (if 0 \<le> v \<and> v < 256 ^ n then Some (little_endian_bytes v n) else None)"

definition to_bytes_little_signed :: "int \<Rightarrow> nat \<Rightarrow> byte list option" where
  "to_bytes_little_signed v n =
     (if - (256 ^ n) \<le> 2 * v \<and> 2 * v < 256 ^ n then Some (little_endian_bytes v n)
      else None)"

definition from_bytes_little :: "byte list \<Rightarrow> int" where
  "from_bytes_little bs = foldr (\<lambda>b acc. uint b + 256 * acc) bs 0"

definition from_bytes_little_signed :: "byte list \<Rightarrow> int" where
  "from_bytes_little_signed bs =
     (let v = from_bytes_little bs
      in if 2 * v \<ge> 256 ^ length bs then v - 256 ^ length bs else v)"

text \<open>
  A slave as the worker sees it: its raw output buffer \<^verbatim>\<open>slave.output\<close> (field \<open>slave_output\<close>), \<open>None\<close> when the
  object has no such attribute (\<^verbatim>\<open>hasattr\<close> is false).
\<close>

record slave =
  slave_output :: "byte list option"

text \<open>
  The four assignments into \<^verbatim>\<open>output_data\<close> (source lines 910 to 913): two slice
  assignments, which replace bytes 0 to 1 and 2 to 3, and two item assignments. An item
  assignment of a value outside 0..255 raises \<^verbatim>\<open>ValueError\<close>.
\<close>

definition encode_output_data :: "int \<Rightarrow> int \<Rightarrow> int \<Rightarrow> int \<Rightarrow> byte list \<Rightarrow> py_exc + byte list" where
  "encode_output_data controlword target_torque mode_of_operation padding output_data =
     (case to_bytes_little controlword 2 of
        None \<Rightarrow> Inl OverflowError
      | Some cw_bytes \<Rightarrow>
          let d1 = cw_bytes @ drop 2 output_data in
          (case to_bytes_little_signed target_torque 2 of
             None \<Rightarrow> Inl OverflowError
           | Some tq_bytes \<Rightarrow>
               let d2 = take 2 d1 @ tq_bytes @ drop 4 d1 in
               if 0 \<le> mode_of_operation \<and> mode_of_operation < 256 then
                 let d3 = d2[4 := word_of_int mode_of_operation] in
                 if 0 \<le> padding \<and> padding < 256 then Inr (d3[5 := word_of_int padding])
                 else Inl ValueError
               else Inl ValueError))"

text \<open>
  The body of the \<^verbatim>\<open>for\<close> loop over the slaves (source lines 904 to 917): nothing happens
  for a missing or empty buffer or one shorter than 6 bytes, and an exception is swallowed
  before \<^verbatim>\<open>slave.output\<close> is assigned.
\<close>

definition encode_slave :: "int \<Rightarrow> int \<Rightarrow> int \<Rightarrow> int \<Rightarrow> slave \<Rightarrow> slave" where
  "encode_slave controlword target_torque mode_of_operation padding sl =
     (case slave_output sl of
        None \<Rightarrow> sl
      | Some buf \<Rightarrow>
          if buf = [] then sl
          else if length buf \<ge> 6 then
            (case encode_output_data controlword target_torque mode_of_operation padding buf of
               Inl e \<Rightarrow> sl
             | Inr output_data \<Rightarrow> sl\<lparr>slave_output := Some output_data\<rparr>)
          else sl)"

text \<open>
  What the worker can change: the slaves' buffers and the module-level counter
  \<^verbatim>\<open>_data_exchange_cycle_count\<close>; it reads the shared variables. \<open>effects\<close> records, in
  order, what the loop does to the outside: a \<^verbatim>\<open>time.sleep\<close> (with its duration in
  seconds) or a printed line. The only \<^verbatim>\<open>print\<close> in the loop is the cycle-time warning.
\<close>

datatype worker_effect = Slept rat | Printed_cycle_time_warning

record worker_state = shared_vars +
  slaves :: "slave list"
  data_exchange_cycle_count :: int
  effects :: "worker_effect list"

text \<open>
  What one pass of the loop observes from outside: the flag \<^verbatim>\<open>_data_exchange_running\<close> at
  the loop test, the outcome of \<^verbatim>\<open>receive_processdata\<close> and of \<^verbatim>\<open>send_processdata\<close>, and
  the measured \<^verbatim>\<open>cycle_elapsed\<close> in seconds.
\<close>

record tick_obs =
  running :: bool
  tick_recv :: "int py_result"
  tick_send :: "int py_result"
  cycle_elapsed :: rat

text \<open>
  The handler \<^verbatim>\<open>except Exception\<close> of the loop body: a single
  \<^verbatim>\<open>time.sleep(ETHERCAT_CYCLE_TIME_MS / 1000.0)\<close>, which itself raises \<^verbatim>\<open>ValueError\<close> for a
  negative duration.
\<close>

definition tick_except :: "rat \<Rightarrow> worker_state \<Rightarrow> py_exc + worker_state" where
  "tick_except p st =
     (if p / 1000 < 0 then Inl ValueError
      else Inr (st\<lparr>effects := effects st @ [Slept (p / 1000)]\<rparr>))"

text \<open>
  The body of the \<^verbatim>\<open>while\<close> loop (source lines 887 to 938). The comparison of the working
  counter with \<^verbatim>\<open>master.expected_wkc\<close> guards a \<^verbatim>\<open>pass\<close>.
\<close>

definition worker_tick :: "rat \<Rightarrow> int \<Rightarrow> tick_obs \<Rightarrow> worker_state \<Rightarrow> py_exc + worker_state" where
  "worker_tick p expected ob st =
     (case tick_recv ob of
        Raised e \<Rightarrow> tick_except p st
      | Returned wkc \<Rightarrow>
          let st0 = (if wkc \<ge> expected then st else st);
              st1 = st0\<lparr>slaves :=
                      map (encode_slave (thread_controlword st0) (thread_target_torque st0)
                             (thread_mode_of_operation st0) 0) (slaves st0)\<rparr>
          in (case tick_send ob of
                Raised e \<Rightarrow> tick_except p st1
              | Returned sent \<Rightarrow>
                  let st2 = st1\<lparr>data_exchange_cycle_count := data_exchange_cycle_count st1 + 1\<rparr>;
                      cycle_time = p / 1000;
                      sleep_time = max 0 (cycle_time - cycle_elapsed ob);
                      st3 = (if cycle_elapsed ob > cycle_time * (3 / 2)
                                \<and> data_exchange_cycle_count st2 mod 1000 = 0
                             then st2\<lparr>effects := effects st2 @ [Printed_cycle_time_warning]\<rparr>
                             else st2)
                  in if sleep_time > 0
                     then Inr (st3\<lparr>effects := effects st3 @ [Slept sleep_time]\<rparr>)
                     else Inr st3))"

text \<open>
  The loop \<^verbatim>\<open>while _data_exchange_running\<close>, one list element per evaluation of the loop
  test. \<open>Inl\<close> is an exception that escapes the loop and ends the thread; \<open>Inr\<close> is the state
  when the flag is seen cleared, or when the observations end with the loop still running.
  \<open>worker_passes\<close> counts the passes through the body.
\<close>

fun data_exchange_loop :: "rat \<Rightarrow> int \<Rightarrow> tick_obs list \<Rightarrow> worker_state \<Rightarrow> py_exc + worker_state" where
  "data_exchange_loop p expected [] st = Inr st"
| "data_exchange_loop p expected (ob # obs) st =
     (if \<not> running ob then Inr st
      else (case worker_tick p expected ob st of
              Inl e \<Rightarrow> Inl e
            | Inr st' \<Rightarrow> data_exchange_loop p expected obs st'))"

fun worker_passes :: "rat \<Rightarrow> int \<Rightarrow> tick_obs list \<Rightarrow> worker_state \<Rightarrow> nat" where
  "worker_passes p expected [] st = 0"
| "worker_passes p expected (ob # obs) st =
     (if \<not> running ob then 0
      else (case worker_tick p expected ob st of
              Inl e \<Rightarrow> 1
            | Inr st' \<Rightarrow> 1 + worker_passes p expected obs st'))"

section \<open>\<^verbatim>\<open>configure_pdo_mapping\<close>\<close>

text \<open>
  One call \<^verbatim>\<open>slave.sdo_write(index, subindex, data)\<close>, with the position of the slave in
  \<^verbatim>\<open>master.slaves\<close>. The device decides whether a write succeeds or raises; it may depend
  on everything attempted before, so a device is a function of the attempts so far (each
  with its outcome, \<open>True\<close> for success) and of the request.
\<close>

record sdo_request =
  sdo_slave :: nat
  sdo_index :: int
  sdo_subindex :: int
  sdo_data :: "byte list"

type_synonym sdo_device = "(sdo_request \<times> bool) list \<Rightarrow> sdo_request \<Rightarrow> bool"

text \<open>
  The state of the configuration: every write attempted so far with its outcome, and the
  accumulator \<^verbatim>\<open>retval\<close>.
\<close>

record cfg_state =
  sdo_log :: "(sdo_request \<times> bool) list"
  retval :: int

definition sdo_write :: "sdo_device \<Rightarrow> nat \<Rightarrow> int \<Rightarrow> int \<Rightarrow> byte list \<Rightarrow> cfg_state \<Rightarrow> bool \<times> cfg_state" where
  "sdo_write dev i index subindex data s =
     (let rq = \<lparr>sdo_slave = i, sdo_index = index, sdo_subindex = subindex, sdo_data = data\<rparr>;
          ok = dev (sdo_log s) rq
      in (ok, s\<lparr>sdo_log := sdo_log s @ [(rq, ok)]\<rparr>))"

text \<open>
  The two shapes of \<^verbatim>\<open>try\<close> block around a write. In both, an exception (of the write, or
  of \<^verbatim>\<open>to_bytes\<close> before it) is caught and printed; \<open>write_counted\<close> is the block whose
  handler also executes \<^verbatim>\<open>retval -= 1\<close>, \<open>write_uncounted\<close> the block whose handler only
  prints (the four clearing writes).
\<close>

definition write_counted :: "sdo_device \<Rightarrow> nat \<Rightarrow> int \<Rightarrow> int \<Rightarrow> byte list option \<Rightarrow> cfg_state \<Rightarrow> cfg_state" where
  "write_counted dev i index subindex data s =
     (case data of
        None \<Rightarrow> s\<lparr>retval := retval s - 1\<rparr>
      | Some bs \<Rightarrow>
          (case sdo_write dev i index subindex bs s of
             (True, s') \<Rightarrow> s'
           | (False, s') \<Rightarrow> s'\<lparr>retval := retval s' - 1\<rparr>))"

definition write_uncounted :: "sdo_device \<Rightarrow> nat \<Rightarrow> int \<Rightarrow> int \<Rightarrow> byte list option \<Rightarrow> cfg_state \<Rightarrow> cfg_state" where
  "write_uncounted dev i index subindex data s =
     (case data of
        None \<Rightarrow> s
      | Some bs \<Rightarrow> snd (sdo_write dev i index subindex bs s))"

text \<open>
  The last \<^verbatim>\<open>try\<close> block of the loop body (source lines 559 to 567): both torque limits are
  written inside one block, so a failure of the first write skips the second; the handler
  only prints.
\<close>

definition write_torque_limits :: "sdo_device \<Rightarrow> nat \<Rightarrow> cfg_state \<Rightarrow> cfg_state" where
  "write_torque_limits dev i s =
     (case to_bytes_little_signed 0 2 of
        None \<Rightarrow> s
      | Some positive_torque_limit \<Rightarrow>
          (case sdo_write dev i 0x60E0 0x00 positive_torque_limit s of
             (False, s1) \<Rightarrow> s1
           | (True, s1) \<Rightarrow>
               (case to_bytes_little_signed 0 2 of
                  None \<Rightarrow> s1
                | Some negative_torque_limit \<Rightarrow>
                    snd (sdo_write dev i 0x60E1 0x00 negative_torque_limit s1))))"

text \<open>
  The body of the loop over the slaves (source lines 383 to 573), block by block in the
  order of the source, in the five groups its comments name: the receive map 0x1600, its
  assignment 0x1C12, the transmit map 0x1A00, its assignment 0x1C13, and the torque
  limits. The calls of \<^verbatim>\<open>time.sleep\<close> and \<^verbatim>\<open>print\<close> between the blocks do not raise, so the
  outer handler of the body is never entered.
\<close>

definition configure_rxpdo_map :: "sdo_device \<Rightarrow> nat \<Rightarrow> cfg_state \<Rightarrow> cfg_state" where
  "configure_rxpdo_map dev i s0 =
     (let s1 = write_uncounted dev i 0x1600 0x00 (to_bytes_little 0 1) s0;
          s2 = write_counted dev i 0x1600 0x01 (to_bytes_little 0x60400010 4) s1;
          s3 = write_counted dev i 0x1600 0x02 (to_bytes_little 0x60710010 4) s2;
          s4 = write_counted dev i 0x1600 0x03 (to_bytes_little 0x60600008 4) s3;
          s5 = write_counted dev i 0x1600 0x04 (to_bytes_little 0x00000008 4) s4
      in write_counted dev i 0x1600 0x00 (to_bytes_little 4 1) s5)"

definition configure_rxpdo_assignment :: "sdo_device \<Rightarrow> nat \<Rightarrow> cfg_state \<Rightarrow> cfg_state" where
  "configure_rxpdo_assignment dev i s0 =
     (let s1 = write_uncounted dev i 0x1C12 0x00 (to_bytes_little 0x0000 2) s0;
          s2 = write_counted dev i 0x1C12 0x01 (to_bytes_little 0x1600 2) s1
      in write_counted dev i 0x1C12 0x00 (to_bytes_little 0x0001 2) s2)"

definition configure_txpdo_map :: "sdo_device \<Rightarrow> nat \<Rightarrow> cfg_state \<Rightarrow> cfg_state" where
  "configure_txpdo_map dev i s0 =
     (let s1 = write_uncounted dev i 0x1A00 0x00 (to_bytes_little 0x0000 2) s0;
          s2 = write_counted dev i 0x1A00 0x01 (to_bytes_little 0x60410010 4) s1;
          s3 = write_counted dev i 0x1A00 0x02 (to_bytes_little 0x60640020 4) s2;
          s4 = write_counted dev i 0x1A00 0x03 (to_bytes_little 0x606C0020 4) s3;
          s5 = write_counted dev i 0x1A00 0x04 (to_bytes_little 0x60770010 4) s4
      in write_counted dev i 0x1A00 0x00 (to_bytes_little 4 1) s5)"

definition configure_txpdo_assignment :: "sdo_device \<Rightarrow> nat \<Rightarrow> cfg_state \<Rightarrow> cfg_state" where
  "configure_txpdo_assignment dev i s0 =
     (let s1 = write_uncounted dev i 0x1C13 0x00 (to_bytes_little 0x0000 2) s0;
          s2 = write_counted dev i 0x1C13 0x01 (to_bytes_little 0x1A00 2) s1
      in write_counted dev i 0x1C13 0x00 (to_bytes_little 0x0001 2) s2)"

definition configure_slave_pdo :: "sdo_device \<Rightarrow> nat \<Rightarrow> cfg_state \<Rightarrow> cfg_state" where
  "configure_slave_pdo dev i s0 =
     (let s1 = configure_rxpdo_map dev i s0;
          s2 = configure_rxpdo_assignment dev i s1;
          s3 = configure_txpdo_map dev i s2;
          s4 = configure_txpdo_assignment dev i s3
      in write_torque_limits dev i s4)"

text \<open>
  The function from \<^verbatim>\<open>retval = 0\<close> on (source lines 380 to 581), for a master with \<open>n\<close>
  slaves. The check before it (lines 356 to 378) talks to the network; its outcome is the
  parameter \<open>all_preop\<close>, and a failed check returns \<^verbatim>\<open>False\<close> before any write. The result
  is the returned boolean with the final state.
\<close>

definition configure_pdo_mapping :: "bool \<Rightarrow> sdo_device \<Rightarrow> nat \<Rightarrow> bool \<times> cfg_state" where
  "configure_pdo_mapping all_preop dev n =
     (if \<not> all_preop then (False, \<lparr>sdo_log = [], retval = 0\<rparr>)
      else
        let s = foldl (\<lambda>s i. configure_slave_pdo dev i s) \<lparr>sdo_log = [], retval = 0\<rparr> [0..<n]
        in if retval s < 0 then (False, s) else (True, s))"

text \<open>
  The protocol in the words of the specification, as a list of (object, sub-slot, value):
  per map, entry count 0, then each descriptor (index, subindex and bit length packed into
  32 bits) into sub-slots 1 to N in order, then entry count N; per assignment object, count
  0, the object index of the map into sub-slot 1, count 1. The receive map holds control
  word (16 bits), target torque (16 bits), mode of operation (8 bits) and padding (8 bits);
  the transmit map holds status word (16), actual position (32), actual velocity (32) and
  actual torque (16).
\<close>

definition spec_descriptor :: "int \<times> int \<times> int \<Rightarrow> int" where
  "spec_descriptor e = (case e of (index, subindex, bits) \<Rightarrow> index * 65536 + subindex * 256 + bits)"

definition spec_map_protocol :: "int \<Rightarrow> (int \<times> int \<times> int) list \<Rightarrow> (int \<times> int \<times> int) list" where
  "spec_map_protocol obj entries =
     [(obj, 0, 0)]
     @ map (\<lambda>k. (obj, int k + 1, spec_descriptor (entries ! k))) [0..<length entries]
     @ [(obj, 0, int (length entries))]"

definition spec_assignment_protocol :: "int \<Rightarrow> int \<Rightarrow> (int \<times> int \<times> int) list" where
  "spec_assignment_protocol assignment obj = [(assignment, 0, 0), (assignment, 1, obj), (assignment, 0, 1)]"

definition spec_receive_map :: "(int \<times> int \<times> int) list" where
  "spec_receive_map = [(0x6040, 0, 16), (0x6071, 0, 16), (0x6060, 0, 8), (0x0000, 0, 8)]"

definition spec_transmit_map :: "(int \<times> int \<times> int) list" where
  "spec_transmit_map = [(0x6041, 0, 16), (0x6064, 0, 32), (0x606C, 0, 32), (0x6077, 0, 16)]"

definition spec_pdo_writes :: "(int \<times> int \<times> int) list" where
  "spec_pdo_writes =
     spec_map_protocol 0x1600 spec_receive_map @ spec_assignment_protocol 0x1C12 0x1600
     @ spec_map_protocol 0x1A00 spec_transmit_map @ spec_assignment_protocol 0x1C13 0x1A00"

text \<open>
  What the claims read off the log: the writes to the mapping and assignment objects
  attempted for slave \<open>i\<close>, each as (object, sub-slot, value written); and the attempts
  whose handler counts, that is all writes to those objects but the clearing writes (value
  0 into sub-slot 0).
\<close>

definition mapping_object :: "int \<Rightarrow> bool" where
  "mapping_object index = (index = 0x1600 \<or> index = 0x1C12 \<or> index = 0x1A00 \<or> index = 0x1C13)"

definition pdo_writes_of :: "nat \<Rightarrow> cfg_state \<Rightarrow> (int \<times> int \<times> int) list" where
  "pdo_writes_of i s =
     map (\<lambda>a. (sdo_index (fst a), sdo_subindex (fst a), from_bytes_little (sdo_data (fst a))))
       (filter (\<lambda>a. sdo_slave (fst a) = i \<and> mapping_object (sdo_index (fst a))) (sdo_log s))"

definition counted_request :: "sdo_request \<Rightarrow> bool" where
  "counted_request rq =
     (mapping_object (sdo_index rq)
      \<and> \<not> (sdo_subindex rq = 0 \<and> from_bytes_little (sdo_data rq) = 0))"

definition counted_failures :: "cfg_state \<Rightarrow> nat" where
  "counted_failures s = length (filter (\<lambda>a. counted_request (fst a) \<and> \<not> snd a) (sdo_log s))"

definition failures :: "cfg_state \<Rightarrow> nat" where
  "failures s = length (filter (\<lambda>a. \<not> snd a) (sdo_log s))"

text \<open>The counter together with the failures it should have counted; 0 before the first write.\<close>

definition error_balance :: "cfg_state \<Rightarrow> int" where
  "error_balance s = retval s + int (counted_failures s)"

section \<open>The wait before the Operational request in \<^verbatim>\<open>set_slaves_to_op_state_cst\<close>\<close>

text \<open>
  The loop \<^verbatim>\<open>while _data_exchange_cycle_count < wait_cycles\<close> (source lines 1014 to 1022) reads
  two things it does not control: the counter, advanced by the worker thread, and the wall
  clock. \<open>count_at k\<close> is the value of the counter at evaluation \<open>k\<close> of the loop test,
  \<open>clock_at k\<close> the value of \<^verbatim>\<open>time.time() - start_wait\<close> after sleep \<open>k\<close>, in seconds (both
  from 0). The loop need not end, so not returning is the value \<open>None\<close>. A result
  \<open>Inr (n, timed_out)\<close> is the number of sleeps made and whether the loop was left by the
  \<^verbatim>\<open>break\<close>; \<open>Inl\<close> is the \<^verbatim>\<open>ValueError\<close> of \<^verbatim>\<open>time.sleep\<close> for a negative duration.
\<close>

partial_function (option) wait_for_cycles ::
  "rat \<Rightarrow> (nat \<Rightarrow> int) \<Rightarrow> (nat \<Rightarrow> rat) \<Rightarrow> nat \<Rightarrow> (py_exc + nat \<times> bool) option" where
  "wait_for_cycles p count_at clock_at k =
     (if count_at k < 300 then
        (if p / 1000 < 0 then Some (Inl ValueError)
         else if clock_at k > 1 then Some (Inr (Suc k, True))
         else wait_for_cycles p count_at clock_at (Suc k))
      else Some (Inr (k, False)))"

text \<open>
  What the function meets up to the write of the state request: the outcome of the check
  that every slave is in SAFEOP (a failed check returns \<^verbatim>\<open>False\<close> at once), the counter and
  the clock, and the outcomes of the four process-data calls made under the lock.
\<close>

record op_env =
  all_safeop :: bool
  count_at :: "nat \<Rightarrow> int"
  clock_at :: "nat \<Rightarrow> rat"
  first_send :: "int py_result"
  first_recv :: "int py_result"
  second_send :: "int py_result"
  second_recv :: "int py_result"

text \<open>
  The calls the function makes, in order. \<open>Op_write_state\<close> is \<^verbatim>\<open>master.write_state()\<close> after
  every \<^verbatim>\<open>slave.state\<close> and \<^verbatim>\<open>master.state\<close> were set to its argument; \<^verbatim>\<open>pysoem.OP_STATE\<close>
  is 8.
\<close>

datatype op_call =
  Op_sleep rat | Op_print_wait_exceeded | Op_send | Op_recv | Op_write_state int

definition OP_STATE :: int where
  "OP_STATE = 8"

text \<open>
  \<^verbatim>\<open>set_slaves_to_op_state_cst\<close> from its start to the call of \<^verbatim>\<open>master.write_state()\<close> (source
  lines 999 to 1053): \<open>None\<close> when the wait never ends, \<open>Inl\<close> when an exception leaves the
  function (none is caught here), otherwise the calls made.
\<close>

definition set_slaves_to_op_request :: "rat \<Rightarrow> op_env \<Rightarrow> (py_exc + op_call list) option" where
  "set_slaves_to_op_request p env =
     (if \<not> all_safeop env then Some (Inr [])
      else
        (case wait_for_cycles p (count_at env) (clock_at env) 0 of
           None \<Rightarrow> None
         | Some (Inl e) \<Rightarrow> Some (Inl e)
         | Some (Inr (n, timed_out)) \<Rightarrow>
             (case first_send env of
                Raised e \<Rightarrow> Some (Inl e)
              | Returned r1 \<Rightarrow>
                  (case first_recv env of
                     Raised e \<Rightarrow> Some (Inl e)
                   | Returned wkc1 \<Rightarrow>
                       (case second_send env of
                          Raised e \<Rightarrow> Some (Inl e)
                        | Returned r2 \<Rightarrow>
                            (case second_recv env of
                               Raised e \<Rightarrow> Some (Inl e)
                             | Returned wkc2 \<Rightarrow>
                                 Some (Inr (replicate n (Op_sleep (p / 1000))
                                            @ (if timed_out then [Op_print_wait_exceeded] else [])
                                            @ [Op_send, Op_recv, Op_send, Op_recv,
                                               Op_write_state OP_STATE]))))))))"

section \<open>Concrete inputs\<close>

text \<open>The shared variables as \<^verbatim>\<open>set_slaves_to_op_state_cst\<close> leaves them on entering OP.\<close>

definition g0 :: shared_vars where
  "g0 = \<lparr>thread_controlword = 0x0080, thread_target_torque = 0, thread_mode_of_operation = 10\<rparr>"

text \<open>
  Four iterations of \<^verbatim>\<open>cyclic_operation\<close> with an expected working counter of 3: a full
  answer, a timeout, a short answer, and an answer above the expected value.
\<close>

definition obs4 :: "cycle_obs list" where
  "obs4 =
     [\<lparr>send_result = Returned 1, recv_wkc = Returned 3, later_calls = Returned ()\<rparr>,
      \<lparr>send_result = Returned 1, recv_wkc = Returned (- 1), later_calls = Returned ()\<rparr>,
      \<lparr>send_result = Returned 1, recv_wkc = Returned 2, later_calls = Returned ()\<rparr>,
      \<lparr>send_result = Returned 1, recv_wkc = Returned 4, later_calls = Returned ()\<rparr>]"

text \<open>
  A worker state with two slaves, one with an 8-byte output buffer and one with a 3-byte
  buffer, in the running stage; and passes of the worker loop in which both calls return
  (with the expected working counter 3, or with the timeout value -1), in which the receive
  or the send raises, and in which the running flag is seen cleared.
\<close>

definition w0 :: worker_state where
  "w0 = \<lparr>thread_controlword = 0x000F, thread_target_torque = 50, thread_mode_of_operation = 10,
          slaves = [\<lparr>slave_output = Some [1, 2, 3, 4, 5, 6, 7, 8]\<rparr>,
                    \<lparr>slave_output = Some [1, 2, 3]\<rparr>],
          data_exchange_cycle_count = 0, effects = []\<rparr>"

definition tick_ok :: tick_obs where
  "tick_ok = \<lparr>running = True, tick_recv = Returned 3, tick_send = Returned 1,
               cycle_elapsed = 1 / 1000\<rparr>"

definition tick_timeout :: tick_obs where
  "tick_timeout = \<lparr>running = True, tick_recv = Returned (- 1), tick_send = Returned 1,
                    cycle_elapsed = 1 / 1000\<rparr>"

definition tick_recv_raises :: tick_obs where
  "tick_recv_raises = \<lparr>running = True, tick_recv = Raised MasterError, tick_send = Returned 1,
                        cycle_elapsed = 0\<rparr>"

definition tick_send_raises :: tick_obs where
  "tick_send_raises = \<lparr>running = True, tick_recv = Returned 3, tick_send = Raised MasterError,
                        cycle_elapsed = 0\<rparr>"

definition tick_stop :: tick_obs where
  "tick_stop = \<lparr>running = False, tick_recv = Returned 3, tick_send = Returned 1,
                 cycle_elapsed = 0\<rparr>"

text \<open>The state the worker reaches from \<open>w0\<close> by one pass in which both calls return.\<close>

definition w1 :: worker_state where
  "w1 = \<lparr>thread_controlword = 0x000F, thread_target_torque = 50, thread_mode_of_operation = 10,
          slaves = [\<lparr>slave_output = Some [0x0F, 0, 50, 0, 10, 0, 7, 8]\<rparr>,
                    \<lparr>slave_output = Some [1, 2, 3]\<rparr>],
          data_exchange_cycle_count = 1, effects = [Slept (1 / 1000)]\<rparr>"

text \<open>
  Three devices: one that accepts every write, one that refuses exactly the first write it
  sees (the clearing of 0x1600 on the first slave), and one that refuses every write to
  sub-slot 2 of a map.
\<close>

definition dev_ok :: sdo_device where
  "dev_ok hist rq = True"

definition dev_refuses_first :: sdo_device where
  "dev_refuses_first hist rq = (hist \<noteq> [])"

definition dev_refuses_slot2 :: sdo_device where
  "dev_refuses_slot2 hist rq = (sdo_subindex rq \<noteq> 2)"

text \<open>
  An environment of \<^verbatim>\<open>set_slaves_to_op_state_cst\<close> at a period of 2 ms: the worker completes
  100 cycles between two tests of the counter, every sleep lasts exactly 2 ms, and the four
  process-data calls return.
\<close>

definition env0 :: op_env where
  "env0 = \<lparr>all_safeop = True, count_at = (\<lambda>k. 100 * int k),
            clock_at = (\<lambda>k. of_nat (Suc k) * (2 / 1000)),
            first_send = Returned 1, first_recv = Returned 3,
            second_send = Returned 1, second_recv = Returned 3\<rparr>"

section \<open>Properties of the drive state machine\<close>

lemma cst_iteration_Inr: "p \<noteq> 0 \<Longrightarrow> \<exists>st'. cst_iteration p nce sw st = Inr st'"
  by (simp add: cst_iteration_def Let_def)

lemma select_stage_step: "step (select_stage p nce sw st) = step st"
  by (simp add: select_stage_def)

lemma select_stage_out:
  "(thread_controlword (select_stage p nce sw st), thread_target_torque (select_stage p nce sw st))
     = stage_output (stage_index p nce (step st))"
  by (simp add: select_stage_def stage_output_def stage_index_def)

lemma cst_iteration_step:
  "cst_iteration p nce sw st = Inr st' \<Longrightarrow>
     step st' = (if step st < 25000 then step st + 1 else step st)"
  by (auto simp: cst_iteration_def Let_def select_stage_step split: if_splits)

lemma cst_iteration_out:
  "cst_iteration p nce sw st = Inr st' \<Longrightarrow>
     (thread_controlword st', thread_target_torque st') = stage_output (stage_index p nce (step st))"
  using select_stage_out [of p nce sw st]
  by (auto simp: cst_iteration_def Let_def split: if_splits)

text \<open>With a positive period no iteration raises: the record has one entry per iteration.\<close>

lemma cst_writes_length: "0 < p \<Longrightarrow> length (cst_writes p nce sws st) = length sws"
proof (induction sws arbitrary: st)
  case Nil
  then show ?case by simp
next
  case (Cons sw sws)
  from Cons.prems have "p \<noteq> 0" by simp
  then obtain st' where "cst_iteration p nce sw st = Inr st'"
    using cst_iteration_Inr by blast
  with Cons show ?case by (simp add: not_less [symmetric] less_imp_le)
qed

text \<open>With a period of 0 the first iteration raises before it writes.\<close>

lemma cst_writes_empty: "cst_writes 0 nce sws st = []"
  by (cases sws) (simp_all add: cst_iteration_def)

text \<open>
  Iteration \<open>i\<close> of a run, when the run gets that far, compares the step value
  \<open>min (step st + i) 25000\<close> and writes the pair of the stage that value selects.
\<close>

lemma cst_writes_nth:
  "i < length (cst_writes p nce sws st) \<Longrightarrow> step st \<le> 25000 \<Longrightarrow>
     cst_writes p nce sws st ! i =
       (min (step st + int i) 25000,
        stage_output (stage_index p nce (min (step st + int i) 25000)))"
proof (induction sws arbitrary: st i)
  case Nil
  then show ?case by simp
next
  case (Cons sw sws)
  show ?case
  proof (cases "cst_iteration p nce sw st")
    case (Inl e)
    with Cons.prems show ?thesis by simp
  next
    case (Inr st')
    note stp = cst_iteration_step [OF Inr]
    note out = cst_iteration_out [OF Inr]
    show ?thesis
    proof (cases i)
      case 0
      with Inr out Cons.prems show ?thesis by simp
    next
      case (Suc k)
      have sleeps: "\<not> p / 1000 < 0"
        using Cons.prems(1) Inr Suc by (auto split: if_splits)
      have k: "k < length (cst_writes p nce sws st')"
        using Cons.prems(1) Inr Suc sleeps by simp
      have le: "step st' \<le> 25000" using stp Cons.prems by (simp split: if_splits)
      have eq: "min (step st' + int k) 25000 = min (step st + int i) 25000"
        using stp Suc Cons.prems by (simp split: if_splits)
      have "cst_writes p nce (sw # sws) st ! i = cst_writes p nce sws st' ! k"
        using Inr Suc sleeps by simp
      with Cons.IH [OF k le] eq show ?thesis by simp
    qed
  qed
qed

lemma cst_writes_mem:
  "(s, cw, tq) \<in> set (cst_writes p nce sws st) \<Longrightarrow>
     (cw, tq) = stage_output (stage_index p nce s)"
proof (induction sws arbitrary: st)
  case Nil
  then show ?case by simp
next
  case (Cons sw sws)
  show ?case
  proof (cases "cst_iteration p nce sw st")
    case (Inl e)
    with Cons.prems show ?thesis by simp
  next
    case (Inr st')
    from Cons.prems Inr have
      "(s, cw, tq) = (step st, thread_controlword st', thread_target_torque st') \<or>
       (s, cw, tq) \<in> set (cst_writes p nce sws st')"
      by (auto split: if_splits)
    then show ?thesis
    proof
      assume "(s, cw, tq) = (step st, thread_controlword st', thread_target_torque st')"
      with cst_iteration_out [OF Inr] show ?thesis by simp
    next
      assume "(s, cw, tq) \<in> set (cst_writes p nce sws st')"
      then show ?thesis by (rule Cons.IH)
    qed
  qed
qed

lemma cst_loop_step_le: "step st \<le> 25000 \<Longrightarrow> step (cst_loop p nce sws st) \<le> 25000"
proof (induction sws arbitrary: st)
  case Nil
  then show ?case by simp
next
  case (Cons sw sws)
  show ?case
  proof (cases "cst_iteration p nce sw st")
    case (Inl e)
    with Cons.prems show ?thesis by simp
  next
    case (Inr st')
    have le: "step st' \<le> 25000"
      using cst_iteration_step [OF Inr] Cons.prems by (simp split: if_splits)
    then have "step (cst_loop p nce sws st') \<le> 25000" by (rule Cons.IH)
    with Inr le show ?thesis by simp
  qed
qed

lemma stage_index_mono: "s \<le> s' \<Longrightarrow> stage_index p nce s \<le> stage_index p nce s'"
  by (simp add: stage_index_def)

lemma stage_index_before_enable:
  "s \<le> enable_operation_threshold p nce \<Longrightarrow> stage_index p nce s < 4"
  by (simp add: stage_index_def)

lemma stage_output_running: "stage_output k = (0x000F, 50) \<longleftrightarrow> 4 \<le> k"
  by (simp add: stage_output_def)

lemma stage_output_torque_zero: "k < 4 \<Longrightarrow> snd (stage_output k) = 0"
  by (simp add: stage_output_def)

text \<open>The thresholds at the configured period of 2 ms, without a non-critical error.\<close>

lemma thresholds_2ms:
  "fault_reset_duration 2 False = 2000"
  "shutdown_threshold 2 False = 2500"
  "switch_on_threshold 2 False = 3000"
  "enable_operation_threshold 2 False = 3500"
  by (simp_all add: fault_reset_duration_def shutdown_threshold_def switch_on_threshold_def
        enable_operation_threshold_def base_duration_steps_def py_int_def)

lemma cst_start_step: "step (cst_start g) = 0"
  by (simp add: cst_start_def)

lemma cst_writes_two:
  "cst_writes 2 False [Some 0x0008, None] (cst_start g0) = [(0, 0x0080, 0), (1, 0x0080, 0)]"
  by (simp add: cst_iteration_def select_stage_def cst_start_def g0_def thresholds_2ms Let_def)

text \<open>
  Claim C1. Run \<^verbatim>\<open>cyclic_operation_cst\<close> with a period of 2 ms and
  \<^verbatim>\<open>has_non_critical_error = False\<close>, whatever status words the drive reports (so also with
  the fault bit set from the start). No iteration raises, and iteration \<open>i\<close>, which compares
  the step value \<open>min i 25000\<close> at the nominal time of \<open>2 * i\<close> ms, leaves in the shared
  variables: control word 0x0080 and torque 0 up to 4000 ms (step values 0 to 2000, the
  fault-reset threshold), 0x0006 and 0 for the next 1000 ms (steps 2001 to 2500), 0x0007 and
  0 for the next 1000 ms (2501 to 3000), 0x000F and 0 for the next 1000 ms (3001 to 3500),
  and 0x000F with torque 50 in every later iteration.
\<close>

theorem cst_enable_sequence_2ms:
  "i < length sws \<Longrightarrow>
     length (cst_writes 2 False sws (cst_start g)) = length sws \<and>
     cst_writes 2 False sws (cst_start g) ! i =
       (min (int i) 25000,
        if 2 * int i \<le> 4000 then (0x0080, 0)
        else if 2 * int i \<le> 5000 then (0x0006, 0)
        else if 2 * int i \<le> 6000 then (0x0007, 0)
        else if 2 * int i \<le> 7000 then (0x000F, 0)
        else (0x000F, 50))"
  using cst_writes_nth [of i 2 False sws "cst_start g"]
  by (simp add: cst_writes_length cst_start_step stage_index_def stage_output_def thresholds_2ms)

text \<open>
  The theorem at iteration 2001 of a run of 2002 iterations whose status word always has
  the fault bit set: the first iteration past the fault-reset threshold writes 0x0006.
\<close>

theorem cst_enable_sequence_2ms_witness:
  "(2001::nat) < length (replicate 2002 (Some (0x0008::int))) \<and>
   length (cst_writes 2 False (replicate 2002 (Some 0x0008)) (cst_start g0)) = 2002 \<and>
   cst_writes 2 False (replicate 2002 (Some 0x0008)) (cst_start g0) ! 2001 = (2001, 0x0006, 0)"
  using cst_enable_sequence_2ms [of 2001 "replicate 2002 (Some 0x0008)" g0] by simp

text \<open>
  Claim C2. For every period from 1 ms to 10 ms, with or without a non-critical error and
  from any state, every iteration of the loop completes, and an iteration whose step value
  is at or below the enable-operation threshold (\<^verbatim>\<open>fault_reset_duration + int(3000 / period)\<close>)
  writes the target torque 0. This does not depend on how the thresholds are rounded: the
  branch that writes 50 is reached only by a step value above the last of them.
\<close>

theorem cst_torque_zero_until_enable_threshold:
  assumes "1 \<le> p" and "p \<le> 10"
    and "i < length sws"
    and "fst (cst_writes p nce sws st ! i) \<le> enable_operation_threshold p nce"
  shows "length (cst_writes p nce sws st) = length sws \<and>
         snd (snd (cst_writes p nce sws st ! i)) = 0"
proof -
  have p0: "0 < p" using assms(1) by auto
  have len: "length (cst_writes p nce sws st) = length sws" using p0 by (rule cst_writes_length)
  obtain s cw tq where w: "cst_writes p nce sws st ! i = (s, cw, tq)"
    by (cases "cst_writes p nce sws st ! i") auto
  have "(s, cw, tq) \<in> set (cst_writes p nce sws st)"
    using assms(3) len w nth_mem [of i "cst_writes p nce sws st"] by simp
  then have "(cw, tq) = stage_output (stage_index p nce s)" by (rule cst_writes_mem)
  moreover have "snd (stage_output (stage_index p nce s)) = 0"
    using assms(4) w by (intro stage_output_torque_zero stage_index_before_enable) simp
  ultimately have "tq = 0" by (metis snd_conv)
  with len w show ?thesis by simp
qed

text \<open>The theorem at the second iteration of a run at 2 ms: step value 1, threshold 3500.\<close>

theorem cst_torque_zero_until_enable_threshold_witness:
  "(1::rat) \<le> 2 \<and> (2::rat) \<le> 10 \<and> (1::nat) < length [Some (0x0008::int), None] \<and>
   fst (cst_writes 2 False [Some 0x0008, None] (cst_start g0) ! 1)
     \<le> enable_operation_threshold 2 False \<and>
   length (cst_writes 2 False [Some 0x0008, None] (cst_start g0)) = 2 \<and>
   snd (snd (cst_writes 2 False [Some 0x0008, None] (cst_start g0) ! 1)) = 0"
  using cst_torque_zero_until_enable_threshold
    [of 2 1 "[Some 0x0008, None]" False "cst_start g0"]
  unfolding cst_writes_two by (simp add: thresholds_2ms)

text \<open>
  Claim C10. In one run of \<^verbatim>\<open>cyclic_operation_cst\<close> (any period, any status words), for two
  iterations \<open>i \<le> j\<close> that the run completes: the step value of \<open>j\<close> is at least that of
  \<open>i\<close>, exceeds it by at most \<open>j - i\<close> (at most one per iteration), and is at most 25000, as
  is the counter when the loop ends; the index of the stage selected at \<open>j\<close> is at least the
  one selected at \<open>i\<close>; and if iteration \<open>i\<close> wrote the running stage's pair (control word
  0x000F, torque 50), so does iteration \<open>j\<close>.
\<close>

theorem cst_step_and_stage_monotone:
  assumes "i \<le> j" and "j < length (cst_writes p nce sws (cst_start g))"
  shows "fst (cst_writes p nce sws (cst_start g) ! i) \<le> fst (cst_writes p nce sws (cst_start g) ! j)
       \<and> fst (cst_writes p nce sws (cst_start g) ! j)
            \<le> fst (cst_writes p nce sws (cst_start g) ! i) + int (j - i)
       \<and> fst (cst_writes p nce sws (cst_start g) ! j) \<le> 25000
       \<and> step (cst_loop p nce sws (cst_start g)) \<le> 25000
       \<and> stage_index p nce (fst (cst_writes p nce sws (cst_start g) ! i))
            \<le> stage_index p nce (fst (cst_writes p nce sws (cst_start g) ! j))
       \<and> (snd (cst_writes p nce sws (cst_start g) ! i) = (0x000F, 50)
            \<longrightarrow> snd (cst_writes p nce sws (cst_start g) ! j) = (0x000F, 50))"
proof -
  let ?w = "cst_writes p nce sws (cst_start g)"
  have jl: "j < length ?w" and il: "i < length ?w" using assms by simp_all
  have s0: "step (cst_start g) \<le> 25000" by (simp add: cst_start_step)
  have wi: "?w ! i = (min (int i) 25000, stage_output (stage_index p nce (min (int i) 25000)))"
    using cst_writes_nth [OF il s0] by (simp add: cst_start_step)
  have wj: "?w ! j = (min (int j) 25000, stage_output (stage_index p nce (min (int j) 25000)))"
    using cst_writes_nth [OF jl s0] by (simp add: cst_start_step)
  have mono: "min (int i) 25000 \<le> min (int j) 25000" using assms(1) by simp
  have a: "fst (?w ! i) \<le> fst (?w ! j)" using wi wj mono by simp
  have b: "fst (?w ! j) \<le> fst (?w ! i) + int (j - i)" using wi wj assms(1) by simp
  have c: "fst (?w ! j) \<le> 25000" using wj by simp
  have d: "step (cst_loop p nce sws (cst_start g)) \<le> 25000" using s0 by (rule cst_loop_step_le)
  have e: "stage_index p nce (fst (?w ! i)) \<le> stage_index p nce (fst (?w ! j))"
    using a by (rule stage_index_mono)
  have f: "snd (?w ! j) = (0x000F, 50)" if "snd (?w ! i) = (0x000F, 50)"
  proof -
    from that wi have "4 \<le> stage_index p nce (fst (?w ! i))"
      by (simp add: stage_output_running)
    with e have "4 \<le> stage_index p nce (fst (?w ! j))" by simp
    then show ?thesis using wj by (simp add: stage_output_running)
  qed
  from a b c d e f show ?thesis by simp
qed

text \<open>
  The theorem at iterations 3501 and 3502 of a run of 3503 iterations at 2 ms: iteration
  3501 is the first of the running stage, and iteration 3502 keeps its pair.
\<close>

theorem cst_step_and_stage_monotone_witness:
  "(3501::nat) \<le> 3502 \<and>
   3502 < length (cst_writes 2 False (replicate 3503 None) (cst_start g0)) \<and>
   fst (cst_writes 2 False (replicate 3503 None) (cst_start g0) ! 3501) = 3501 \<and>
   fst (cst_writes 2 False (replicate 3503 None) (cst_start g0) ! 3502) \<le> 25000 \<and>
   snd (cst_writes 2 False (replicate 3503 None) (cst_start g0) ! 3501) = (0x000F, 50) \<and>
   snd (cst_writes 2 False (replicate 3503 None) (cst_start g0) ! 3502) = (0x000F, 50)"
proof -
  let ?w = "cst_writes 2 False (replicate 3503 None) (cst_start g0)"
  have len: "length ?w = 3503" by (simp add: cst_writes_length)
  have wi: "?w ! 3501 = (3501, 0x000F, 50)"
    using cst_writes_nth [of 3501 2 False "replicate 3503 None" "cst_start g0"] len
    by (simp add: cst_start_step stage_index_def stage_output_def thresholds_2ms)
  have j: "3502 < length ?w" using len by simp
  show ?thesis
    using cst_step_and_stage_monotone [of 3501 3502 2 False "replicate 3503 None" g0, OF _ j]
      len wi
    by simp
qed

section \<open>Properties of the working-counter statistics\<close>

lemma total_attempts_analyze:
  "total_attempts (analyze_wkc wkc expected s) = total_attempts s + 1"
  by (simp add: analyze_wkc_def total_attempts_def)

lemma cyclic_operation_stats_nth:
  "k < length (cyclic_operation_stats expected obs s) \<Longrightarrow>
     total_attempts (cyclic_operation_stats expected obs s ! k) = total_attempts s + int k + 1"
proof (induction obs arbitrary: s k)
  case Nil
  then show ?case by simp
next
  case (Cons ob obs)
  show ?case
  proof (cases k)
    case 0
    with Cons.prems show ?thesis
      by (auto simp: total_attempts_analyze split: py_result.splits)
  next
    case (Suc j)
    with Cons.prems Cons.IH show ?thesis
      by (auto simp: total_attempts_analyze split: py_result.splits)
  qed
qed

lemma cyclic_operation_loop_total:
  "total_attempts (cyclic_operation_loop expected obs s) =
     total_attempts s + int (length (cyclic_operation_stats expected obs s))"
  by (induction obs arbitrary: s) (auto simp: total_attempts_analyze split: py_result.splits)

text \<open>
  Claim C4. With an expected working counter that is not negative (it is a sum of
  counts), the analysis in \<^verbatim>\<open>cyclic_operation\<close> puts every returned value in exactly one
  class: a value equal to or above the expected counter advances the success total, the
  sentinel -1 the timeout total, any other value below the expected counter the degraded
  total (\<^verbatim>\<open>low_wkc_count\<close>); each analysis adds one to the sum of the three totals. In a run
  the sum after the analysis of receive call number \<open>k\<close> (from 0) is \<open>k + 1\<close>, and when the
  loop ends it is the number of receive calls the run analysed.
\<close>

theorem wkc_classification_totals:
  assumes "0 \<le> expected"
    and "k < length (cyclic_operation_stats expected obs cyclic_start)"
  shows "analyze_wkc wkc expected s =
           (if wkc \<ge> expected then
              s\<lparr>cycle_count := cycle_count s + 1, success_count := success_count s + 1\<rparr>
            else if wkc = - 1 then s\<lparr>timeout_count := timeout_count s + 1\<rparr>
            else s\<lparr>low_wkc_count := low_wkc_count s + 1\<rparr>)
       \<and> total_attempts (analyze_wkc wkc expected s) = total_attempts s + 1
       \<and> total_attempts (cyclic_operation_stats expected obs cyclic_start ! k) = int k + 1
       \<and> total_attempts (cyclic_operation_loop expected obs cyclic_start)
            = int (length (cyclic_operation_stats expected obs cyclic_start))"
proof -
  have z: "total_attempts cyclic_start = 0" by (simp add: total_attempts_def cyclic_start_def)
  have a: "analyze_wkc wkc expected s =
           (if wkc \<ge> expected then
              s\<lparr>cycle_count := cycle_count s + 1, success_count := success_count s + 1\<rparr>
            else if wkc = - 1 then s\<lparr>timeout_count := timeout_count s + 1\<rparr>
            else s\<lparr>low_wkc_count := low_wkc_count s + 1\<rparr>)"
    using assms(1) by (simp add: analyze_wkc_def)
  have b: "total_attempts (cyclic_operation_loop expected obs cyclic_start)
            = int (length (cyclic_operation_stats expected obs cyclic_start))"
    by (simp add: cyclic_operation_loop_total z)
  have c: "total_attempts (cyclic_operation_stats expected obs cyclic_start ! k) = int k + 1"
    using cyclic_operation_stats_nth [OF assms(2)] by (simp add: z)
  have d: "total_attempts (analyze_wkc wkc expected s) = total_attempts s + 1"
    by (rule total_attempts_analyze)
  show ?thesis by (rule conjI [OF a conjI [OF d conjI [OF c b]]])
qed

text \<open>The theorem on four iterations: success, timeout, degraded, success.\<close>

lemma obs4_stats:
  "cyclic_operation_stats 3 obs4 cyclic_start =
     [\<lparr>cycle_count = 1, success_count = 1, timeout_count = 0, low_wkc_count = 0\<rparr>,
      \<lparr>cycle_count = 1, success_count = 1, timeout_count = 1, low_wkc_count = 0\<rparr>,
      \<lparr>cycle_count = 1, success_count = 1, timeout_count = 1, low_wkc_count = 1\<rparr>,
      \<lparr>cycle_count = 2, success_count = 2, timeout_count = 1, low_wkc_count = 1\<rparr>]"
  by (simp add: obs4_def cyclic_start_def analyze_wkc_def)

lemma obs4_loop:
  "cyclic_operation_loop 3 obs4 cyclic_start =
      \<lparr>cycle_count = 2, success_count = 2, timeout_count = 1, low_wkc_count = 1\<rparr>"
  by (simp add: obs4_def cyclic_start_def analyze_wkc_def)

theorem wkc_classification_totals_witness:
  "(0::int) \<le> 3 \<and> (2::nat) < length (cyclic_operation_stats 3 obs4 cyclic_start) \<and>
   analyze_wkc 4 3 cyclic_start =
     \<lparr>cycle_count = 1, success_count = 1, timeout_count = 0, low_wkc_count = 0\<rparr> \<and>
   total_attempts (cyclic_operation_stats 3 obs4 cyclic_start ! 2) = 3 \<and>
   total_attempts (cyclic_operation_loop 3 obs4 cyclic_start) = 4"
  using wkc_classification_totals [of 3 2 obs4 4 cyclic_start]
  unfolding obs4_stats obs4_loop by (simp add: cyclic_start_def)

section \<open>Properties of the output frame and the worker loop\<close>

lemma upt_2: "[0..<2] = [0, Suc 0]"
  by (simp add: upt_rec)

lemma to_bytes_little_2:
  "0 \<le> v \<Longrightarrow> v < 65536 \<Longrightarrow>
     to_bytes_little v 2 = Some [word_of_int v, word_of_int (v div 256)]"
  by (simp add: to_bytes_little_def little_endian_bytes_def upt_2)

lemma to_bytes_little_signed_2:
  "- 32768 \<le> v \<Longrightarrow> v < 32768 \<Longrightarrow>
     to_bytes_little_signed v 2 = Some [word_of_int v, word_of_int (v div 256)]"
  by (simp add: to_bytes_little_signed_def little_endian_bytes_def upt_2)

lemma uint_byte: "uint (word_of_int v :: byte) = v mod 256"
  by (simp add: uint_word_of_int)

lemma from_bytes_little_2:
  "0 \<le> v \<Longrightarrow> v < 65536 \<Longrightarrow>
     from_bytes_little [word_of_int v, word_of_int (v div 256)] = v"
  by (simp add: from_bytes_little_def uint_byte)

lemma from_bytes_little_signed_2:
  assumes "- 32768 \<le> v" and "v < 32768"
  shows "from_bytes_little_signed [word_of_int v, word_of_int (v div 256)] = v"
proof -
  have m: "v mod 256 + 256 * (v div 256 mod 256) = v mod 65536"
    using zmod_zmult2_eq [of 256 v 256] by simp
  show ?thesis
  proof (cases "0 \<le> v")
    case True
    then have "v mod 65536 = v" using assms by simp
    with m True assms show ?thesis
      by (simp add: from_bytes_little_signed_def from_bytes_little_def uint_byte Let_def)
  next
    case False
    have "(v + 65536) mod 65536 = v + 65536"
      using assms False by (intro mod_pos_pos_trivial) auto
    then have "v mod 65536 = v + 65536" by simp
    with m False assms show ?thesis
      by (simp add: from_bytes_little_signed_def from_bytes_little_def uint_byte Let_def)
  qed
qed


lemma length_ge_6:
  "6 \<le> length (buf :: 'a list) \<Longrightarrow> \<exists>b0 b1 b2 b3 b4 b5 r. buf = b0 # b1 # b2 # b3 # b4 # b5 # r"
  by (auto simp: numeral_eq_Suc Suc_le_length_iff)

lemma encode_output_data_frame:
  assumes "0 \<le> cw" and "cw < 65536" and "- 32768 \<le> tq" and "tq < 32768"
    and "0 \<le> m" and "m < 256" and "6 \<le> length buf"
  shows "encode_output_data cw tq m 0 buf =
           Inr ([word_of_int cw, word_of_int (cw div 256), word_of_int tq,
                 word_of_int (tq div 256), word_of_int m, 0] @ drop 6 buf)"
proof -
  from assms(7) obtain b0 b1 b2 b3 b4 b5 r where buf: "buf = b0 # b1 # b2 # b3 # b4 # b5 # r"
    using length_ge_6 by blast
  show ?thesis
    using assms(1-6)
    by (simp add: encode_output_data_def to_bytes_little_2 to_bytes_little_signed_2 buf)
qed

lemma encode_slave_frame:
  assumes "0 \<le> cw" and "cw < 65536" and "- 32768 \<le> tq" and "tq < 32768"
    and "0 \<le> m" and "m < 256"
  shows "encode_slave cw tq m 0 sl =
           (case slave_output sl of
              None \<Rightarrow> sl
            | Some buf \<Rightarrow>
                if 6 \<le> length buf then
                  sl\<lparr>slave_output :=
                       Some ([word_of_int cw, word_of_int (cw div 256), word_of_int tq,
                              word_of_int (tq div 256), word_of_int m, 0] @ drop 6 buf)\<rparr>
                else sl)"
proof (cases "slave_output sl")
  case None
  then show ?thesis by (simp add: encode_slave_def)
next
  case (Some buf)
  show ?thesis
  proof (cases "6 \<le> length buf")
    case True
    then have "buf \<noteq> []" by auto
    with Some True encode_output_data_frame [OF assms True] show ?thesis
      by (simp add: encode_slave_def)
  next
    case False
    with Some show ?thesis by (simp add: encode_slave_def)
  qed
qed

lemma worker_tick_slaves:
  "tick_recv ob = Returned wkc \<Longrightarrow> worker_tick p expected ob st = Inr st' \<Longrightarrow>
     slaves st' =
       map (encode_slave (thread_controlword st) (thread_target_torque st)
              (thread_mode_of_operation st) 0) (slaves st)"
  by (auto simp: worker_tick_def tick_except_def Let_def split: py_result.splits if_splits)

text \<open>
  Every value the drive state machine leaves in the shared variables fits its field of the
  frame.
\<close>

lemma cst_iteration_fits_frame:
  assumes "cst_iteration p nce sw st = Inr st'"
  shows "0 \<le> thread_controlword st' \<and> thread_controlword st' < 65536 \<and>
         - 32768 \<le> thread_target_torque st' \<and> thread_target_torque st' < 32768 \<and>
         thread_mode_of_operation st' = 10"
proof -
  have m: "thread_mode_of_operation st' = 10"
    using assms by (auto simp: cst_iteration_def Let_def split: if_splits)
  have "(thread_controlword st', thread_target_torque st')
          = stage_output (stage_index p nce (step st))"
    using assms by (rule cst_iteration_out)
  then have "0 \<le> thread_controlword st' \<and> thread_controlword st' < 65536 \<and>
         - 32768 \<le> thread_target_torque st' \<and> thread_target_torque st' < 32768"
    by (auto simp: stage_output_def split: if_splits)
  with m show ?thesis by simp
qed

text \<open>
  Claim C9. Take a pass of the worker loop whose receive returns, with the shared variables
  in the ranges of their frame fields (control word 0..65535, target torque -32768..32767,
  mode 0..255); the encode step then runs. Every slave keeps its place; a slave whose
  output buffer holds at least 6 bytes gets the control word in bytes 0 and 1 (low byte
  first), the target torque in bytes 2 and 3 (two's complement, low byte first), the mode
  in byte 4 and the padding 0 in byte 5, while its bytes from index 6 on stay as they were;
  a slave with a shorter (or empty, or missing) buffer is left unchanged. Reading bytes 0
  to 1, bytes 2 to 3 (signed) and byte 4 back with \<^verbatim>\<open>int.from_bytes\<close> gives the three
  fields.
\<close>

theorem worker_tick_encodes_output_frames:
  assumes "0 \<le> thread_controlword st" and "thread_controlword st < 65536"
    and "- 32768 \<le> thread_target_torque st" and "thread_target_torque st < 32768"
    and "0 \<le> thread_mode_of_operation st" and "thread_mode_of_operation st < 256"
    and "tick_recv ob = Returned wkc"
    and "worker_tick p expected ob st = Inr st'"
    and "i < length (slaves st)"
  shows "length (slaves st') = length (slaves st) \<and>
         (case slave_output (slaves st ! i) of
            None \<Rightarrow> slaves st' ! i = slaves st ! i
          | Some buf \<Rightarrow>
              if 6 \<le> length buf then
                slave_output (slaves st' ! i) =
                  Some ([word_of_int (thread_controlword st),
                         word_of_int (thread_controlword st div 256),
                         word_of_int (thread_target_torque st),
                         word_of_int (thread_target_torque st div 256),
                         word_of_int (thread_mode_of_operation st), 0] @ drop 6 buf)
              else slaves st' ! i = slaves st ! i) \<and>
         from_bytes_little [word_of_int (thread_controlword st),
                            word_of_int (thread_controlword st div 256)] = thread_controlword st \<and>
         from_bytes_little_signed [word_of_int (thread_target_torque st),
                                   word_of_int (thread_target_torque st div 256)]
           = thread_target_torque st \<and>
         uint (word_of_int (thread_mode_of_operation st) :: byte) = thread_mode_of_operation st"
proof -
  have sl: "slaves st' =
       map (encode_slave (thread_controlword st) (thread_target_torque st)
              (thread_mode_of_operation st) 0) (slaves st)"
    using assms(7,8) by (rule worker_tick_slaves)
  have a: "length (slaves st') = length (slaves st)" using sl by simp
  have nth: "slaves st' ! i = encode_slave (thread_controlword st) (thread_target_torque st)
              (thread_mode_of_operation st) 0 (slaves st ! i)"
    using sl assms(9) by simp
  have b: "(case slave_output (slaves st ! i) of
            None \<Rightarrow> slaves st' ! i = slaves st ! i
          | Some buf \<Rightarrow>
              if 6 \<le> length buf then
                slave_output (slaves st' ! i) =
                  Some ([word_of_int (thread_controlword st),
                         word_of_int (thread_controlword st div 256),
                         word_of_int (thread_target_torque st),
                         word_of_int (thread_target_torque st div 256),
                         word_of_int (thread_mode_of_operation st), 0] @ drop 6 buf)
              else slaves st' ! i = slaves st ! i)"
    unfolding nth encode_slave_frame [OF assms(1-6)]
    by (simp split: option.splits)
  have c: "from_bytes_little [word_of_int (thread_controlword st),
                            word_of_int (thread_controlword st div 256)] = thread_controlword st"
    using assms(1,2) by (rule from_bytes_little_2)
  have d: "from_bytes_little_signed [word_of_int (thread_target_torque st),
                                   word_of_int (thread_target_torque st div 256)]
           = thread_target_torque st"
    using assms(3,4) by (rule from_bytes_little_signed_2)
  have e: "uint (word_of_int (thread_mode_of_operation st) :: byte) = thread_mode_of_operation st"
    using assms(5,6) by (simp add: uint_byte)
  show ?thesis by (rule conjI [OF a conjI [OF b conjI [OF c conjI [OF d e]]]])
qed

text \<open>
  The theorem on \<open>w0\<close>: the 8-byte buffer of the first slave becomes
  0F 00 32 00 0A 00 07 08.
\<close>

lemma tick_ok_w0: "worker_tick 2 3 tick_ok w0 = Inr w1"
  by (simp add: worker_tick_def tick_ok_def w0_def w1_def Let_def encode_slave_def
        encode_output_data_def to_bytes_little_def to_bytes_little_signed_def
        little_endian_bytes_def upt_2)

theorem worker_tick_encodes_output_frames_witness:
  "0 \<le> thread_controlword w0 \<and> thread_controlword w0 < 65536 \<and>
   - 32768 \<le> thread_target_torque w0 \<and> thread_target_torque w0 < 32768 \<and>
   0 \<le> thread_mode_of_operation w0 \<and> thread_mode_of_operation w0 < 256 \<and>
   tick_recv tick_ok = Returned 3 \<and> worker_tick 2 3 tick_ok w0 = Inr w1 \<and>
   (0::nat) < length (slaves w0) \<and>
   slave_output (slaves w0 ! 0) = Some [1, 2, 3, 4, 5, 6, 7, 8] \<and>
   slave_output (slaves w1 ! 0) = Some [0x0F, 0, 50, 0, 10, 0, 7, 8] \<and>
   length (slaves w1) = length (slaves w0) \<and>
   from_bytes_little [0x0F, 0] = 15 \<and> from_bytes_little_signed [50, 0] = 50"
  using worker_tick_encodes_output_frames [of w0 tick_ok 3 2 3 w1 0] tick_ok_w0
  by (simp add: w0_def w1_def tick_ok_def)

lemma tick_except_Inr:
  "0 \<le> p \<Longrightarrow> tick_except p st = Inr (st\<lparr>effects := effects st @ [Slept (p / 1000)]\<rparr>)"
  by (simp add: tick_except_def not_less)

lemma worker_tick_Inr: "0 \<le> p \<Longrightarrow> \<exists>st'. worker_tick p expected ob st = Inr st'"
  by (simp add: worker_tick_def tick_except_Inr Let_def split: py_result.splits)

lemma data_exchange_loop_Inr:
  "0 \<le> p \<Longrightarrow> \<exists>st'. data_exchange_loop p expected obs st = Inr st'"
proof (induction obs arbitrary: st)
  case Nil
  then show ?case by simp
next
  case (Cons ob obs)
  from Cons.prems obtain st1 where "worker_tick p expected ob st = Inr st1"
    using worker_tick_Inr by blast
  with Cons show ?case by simp
qed

lemma worker_passes_takeWhile:
  "0 \<le> p \<Longrightarrow> worker_passes p expected obs st = length (takeWhile running obs)"
proof (induction obs arbitrary: st)
  case Nil
  then show ?case by simp
next
  case (Cons ob obs)
  from Cons.prems obtain st1 where "worker_tick p expected ob st = Inr st1"
    using worker_tick_Inr by blast
  with Cons show ?case by simp
qed

lemma worker_tick_raise_effects:
  assumes "0 \<le> p" and "tick_recv ob = Raised x \<or> tick_send ob = Raised x"
    and "worker_tick p expected ob st = Inr st'"
  shows "effects st' = effects st @ [Slept (p / 1000)] \<and>
         data_exchange_cycle_count st' = data_exchange_cycle_count st"
  using assms
  by (auto simp: worker_tick_def tick_except_Inr Let_def split: py_result.splits)

text \<open>
  Claim C7, as amended. Take a pass of the worker loop, entered with the running flag set
  and with a period that is not negative, in which the receive or the send raises. The
  pass ends normally; all it does to the outside is one \<^verbatim>\<open>time.sleep\<close> of one period (no
  line is printed), and the cycle counter is not advanced. The loop then goes on with the
  next evaluation of its test: no exception escapes it, and it makes one pass for every
  observation of the flag as set, up to the first time the flag is seen cleared.
\<close>

theorem worker_tick_exception_backoff:
  assumes "0 \<le> p" and "running ob" and "tick_recv ob = Raised x \<or> tick_send ob = Raised x"
  shows "\<exists>st'. worker_tick p expected ob st = Inr st'
           \<and> effects st' = effects st @ [Slept (p / 1000)]
           \<and> data_exchange_cycle_count st' = data_exchange_cycle_count st
           \<and> data_exchange_loop p expected (ob # obs) st = data_exchange_loop p expected obs st'
           \<and> (\<exists>st''. data_exchange_loop p expected (ob # obs) st = Inr st'')
           \<and> worker_passes p expected (ob # obs) st = 1 + length (takeWhile running obs)"
proof -
  from assms(1) obtain st' where t: "worker_tick p expected ob st = Inr st'"
    using worker_tick_Inr by blast
  note e = worker_tick_raise_effects [OF assms(1) assms(3) t]
  have l: "data_exchange_loop p expected (ob # obs) st = data_exchange_loop p expected obs st'"
    using assms(2) t by simp
  have x: "\<exists>st''. data_exchange_loop p expected (ob # obs) st = Inr st''"
    using assms(1) by (rule data_exchange_loop_Inr)
  have n: "worker_passes p expected (ob # obs) st = 1 + length (takeWhile running obs)"
    using worker_passes_takeWhile [OF assms(1), of expected "ob # obs" st] assms(2) by simp
  from t e l x n show ?thesis by blast
qed

text \<open>
  Claim C7 as stated asks for a logged note with the wait. A pass from \<open>w0\<close> at 2 ms whose
  receive raises only sleeps 1/500 s: nothing is printed.
\<close>

lemma tick_recv_raises_w0:
  "worker_tick 2 3 tick_recv_raises w0 = Inr (w0\<lparr>effects := [Slept (1 / 500)]\<rparr>)"
  by (simp add: worker_tick_def tick_except_def tick_recv_raises_def w0_def)

theorem worker_tick_exception_prints_nothing:
  "worker_tick 2 3 tick_recv_raises w0 = Inr (w0\<lparr>effects := [Slept (1 / 500)]\<rparr>) \<and>
   Printed_cycle_time_warning \<notin> set (effects (w0\<lparr>effects := [Slept (1 / 500)]\<rparr>))"
  by (simp add: tick_recv_raises_w0)

text \<open>
  The amended theorem on five observations: the receive raises, the send raises, a normal
  pass, the flag cleared. Three passes are made.
\<close>

theorem worker_tick_exception_backoff_witness:
  "(0::rat) \<le> 2 \<and> running tick_recv_raises \<and>
   (tick_recv tick_recv_raises = Raised MasterError \<or> tick_send tick_recv_raises = Raised MasterError) \<and>
   worker_tick 2 3 tick_recv_raises w0 = Inr (w0\<lparr>effects := [Slept (1 / 500)]\<rparr>) \<and>
   data_exchange_loop 2 3 [tick_recv_raises, tick_send_raises, tick_ok, tick_stop, tick_ok] w0 =
     data_exchange_loop 2 3 [tick_send_raises, tick_ok, tick_stop, tick_ok]
       (w0\<lparr>effects := [Slept (1 / 500)]\<rparr>) \<and>
   worker_passes 2 3 [tick_recv_raises, tick_send_raises, tick_ok, tick_stop, tick_ok] w0 = 3"
  using worker_tick_exception_backoff [of 2 tick_recv_raises MasterError 3 w0 "[tick_send_raises, tick_ok, tick_stop, tick_ok]"]
  unfolding tick_recv_raises_w0
  by (simp add: tick_recv_raises_def tick_send_raises_def tick_ok_def tick_stop_def)

text \<open>
  Claim C8, as amended. The worker compares the working counter its receive returned with
  the expected one and does nothing with the outcome: a pass leaves the same state (slave
  buffers, cycle counter, shared variables, sleeps and printed lines) whatever working
  counter was returned and whatever counter was expected. No success, degraded or timeout
  total is kept by the worker.
\<close>

theorem worker_tick_ignores_working_counter:
  "worker_tick p expected (ob\<lparr>tick_recv := Returned wkc\<rparr>) st =
   worker_tick p expected' (ob\<lparr>tick_recv := Returned wkc'\<rparr>) st"
  by (simp add: worker_tick_def Let_def split: py_result.splits)

text \<open>
  Claim C8 as stated has the worker record each working counter in the running totals. A
  pass from \<open>w0\<close> whose receive times out (-1) and one whose receive returns the expected
  counter 3 end in the same state, although the analysis of \<^verbatim>\<open>cyclic_operation\<close> would
  put the two values in different totals.
\<close>

theorem worker_tick_records_no_working_counter:
  "worker_tick 2 3 tick_timeout w0 = worker_tick 2 3 tick_ok w0 \<and>
   analyze_wkc (- 1) 3 cyclic_start \<noteq> analyze_wkc 3 3 cyclic_start"
  by (simp add: worker_tick_def tick_timeout_def tick_ok_def analyze_wkc_def cyclic_start_def Let_def)

section \<open>Properties of \<^verbatim>\<open>configure_pdo_mapping\<close>\<close>

lemma from_bytes_little_Cons: "from_bytes_little (b # bs) = uint b + 256 * from_bytes_little bs"
  by (simp add: from_bytes_little_def)

lemma little_endian_bytes_Suc:
  "little_endian_bytes v (Suc n) = word_of_int v # little_endian_bytes (v div 256) n"
proof -
  have "[0..<Suc n] = 0 # map Suc [0..<n]"
    by (simp add: upt_conv_Cons map_Suc_upt del: upt_Suc)
  then have "little_endian_bytes v (Suc n) =
      word_of_int v # map (\<lambda>i. word_of_int (v div 256 ^ Suc i)) [0..<n]"
    by (simp add: little_endian_bytes_def comp_def del: upt_Suc)
  moreover have "\<And>i. v div 256 ^ Suc i = v div 256 div 256 ^ i"
    by (simp add: zdiv_zmult2_eq)
  ultimately show ?thesis by (simp add: little_endian_bytes_def)
qed

lemma from_bytes_little_endian: "from_bytes_little (little_endian_bytes v n) = v mod 256 ^ n"
proof (induction n arbitrary: v)
  case 0
  then show ?case by (simp add: little_endian_bytes_def from_bytes_little_def)
next
  case (Suc n)
  have "v mod 256 + 256 * (v div 256 mod 256 ^ n) = v mod (256 * 256 ^ n)"
    using zmod_zmult2_eq [of "256 ^ n" v 256] by simp
  with Suc show ?case
    by (simp add: little_endian_bytes_Suc from_bytes_little_Cons uint_word_of_int)
qed


lemma to_bytes_little_Some:
  "0 \<le> v \<Longrightarrow> v < 256 ^ n \<Longrightarrow> to_bytes_little v n = Some (little_endian_bytes v n)"
  by (simp add: to_bytes_little_def)

lemma from_bytes_little_endian_small:
  "0 \<le> v \<Longrightarrow> v < 256 ^ n \<Longrightarrow> from_bytes_little (little_endian_bytes v n) = v"
  by (simp add: from_bytes_little_endian)

text \<open>The effect of the two kinds of block on the writes read off the log.\<close>

lemma pdo_writes_of_write_counted:
  assumes "0 \<le> v" and "v < 256 ^ n" and "mapping_object index"
  shows "pdo_writes_of i (write_counted dev j index subindex (to_bytes_little v n) s) =
           pdo_writes_of i s @ (if i = j then [(index, subindex, v)] else [])"
  using assms
  by (auto simp: write_counted_def sdo_write_def pdo_writes_of_def to_bytes_little_Some
        from_bytes_little_endian_small Let_def split: prod.splits bool.splits)

lemma pdo_writes_of_write_uncounted:
  assumes "0 \<le> v" and "v < 256 ^ n" and "mapping_object index"
  shows "pdo_writes_of i (write_uncounted dev j index subindex (to_bytes_little v n) s) =
           pdo_writes_of i s @ (if i = j then [(index, subindex, v)] else [])"
  using assms
  by (auto simp: write_uncounted_def sdo_write_def pdo_writes_of_def to_bytes_little_Some
        from_bytes_little_endian_small Let_def)

lemma pdo_writes_of_write_torque_limits:
  "pdo_writes_of i (write_torque_limits dev j s) = pdo_writes_of i s"
  by (auto simp: write_torque_limits_def sdo_write_def pdo_writes_of_def mapping_object_def
        Let_def split: option.splits prod.splits bool.splits)

lemma spec_map_protocol_4:
  "spec_map_protocol obj [e1, e2, e3, e4] =
     [(obj, 0, 0), (obj, 1, spec_descriptor e1), (obj, 2, spec_descriptor e2),
      (obj, 3, spec_descriptor e3), (obj, 4, spec_descriptor e4), (obj, 0, 4)]"
  by (simp add: spec_map_protocol_def upt_rec)

lemma pdo_writes_of_rxpdo_map:
  "pdo_writes_of i (configure_rxpdo_map dev j s) =
     pdo_writes_of i s @ (if i = j then spec_map_protocol 0x1600 spec_receive_map else [])"
  by (simp add: configure_rxpdo_map_def Let_def pdo_writes_of_write_counted
        pdo_writes_of_write_uncounted mapping_object_def spec_receive_map_def
        spec_map_protocol_4 spec_descriptor_def)

lemma pdo_writes_of_rxpdo_assignment:
  "pdo_writes_of i (configure_rxpdo_assignment dev j s) =
     pdo_writes_of i s @ (if i = j then spec_assignment_protocol 0x1C12 0x1600 else [])"
  by (simp add: configure_rxpdo_assignment_def Let_def pdo_writes_of_write_counted
        pdo_writes_of_write_uncounted mapping_object_def spec_assignment_protocol_def)

lemma pdo_writes_of_txpdo_map:
  "pdo_writes_of i (configure_txpdo_map dev j s) =
     pdo_writes_of i s @ (if i = j then spec_map_protocol 0x1A00 spec_transmit_map else [])"
  by (simp add: configure_txpdo_map_def Let_def pdo_writes_of_write_counted
        pdo_writes_of_write_uncounted mapping_object_def spec_transmit_map_def
        spec_map_protocol_4 spec_descriptor_def)

lemma pdo_writes_of_txpdo_assignment:
  "pdo_writes_of i (configure_txpdo_assignment dev j s) =
     pdo_writes_of i s @ (if i = j then spec_assignment_protocol 0x1C13 0x1A00 else [])"
  by (simp add: configure_txpdo_assignment_def Let_def pdo_writes_of_write_counted
        pdo_writes_of_write_uncounted mapping_object_def spec_assignment_protocol_def)

lemma pdo_writes_of_configure_slave_pdo:
  "pdo_writes_of i (configure_slave_pdo dev j s) =
     pdo_writes_of i s @ (if i = j then spec_pdo_writes else [])"
  by (simp add: configure_slave_pdo_def Let_def pdo_writes_of_write_torque_limits
        pdo_writes_of_rxpdo_map pdo_writes_of_rxpdo_assignment pdo_writes_of_txpdo_map
        pdo_writes_of_txpdo_assignment spec_pdo_writes_def)

lemma pdo_writes_of_foldl:
  "pdo_writes_of i (foldl (\<lambda>s j. configure_slave_pdo dev j s) s js) =
     pdo_writes_of i s @ concat (map (\<lambda>j. if i = j then spec_pdo_writes else []) js)"
  by (induction js arbitrary: s) (simp_all add: pdo_writes_of_configure_slave_pdo)

lemma concat_single_upt:
  "i < n \<Longrightarrow> concat (map (\<lambda>j. if i = j then xs else []) [0..<n]) = xs"
proof (induction n)
  case 0
  then show ?case by simp
next
  case (Suc n)
  show ?case
  proof (cases "i = n")
    case True
    have "concat (map (\<lambda>j. if i = j then xs else []) [0..<n]) = []"
      using True by (auto simp: concat_eq_Nil_conv)
    with True show ?thesis by simp
  next
    case False
    with Suc show ?thesis by simp
  qed
qed

text \<open>
  Claim C3. When the state check lets \<^verbatim>\<open>configure_pdo_mapping\<close> through, then for every
  slave and every device (whatever writes it refuses) the writes attempted on the mapping
  and assignment objects are, in this order: on the receive map 0x1600 the entry count 0,
  the descriptors of control word (0x6040, 16 bits), target torque (0x6071, 16 bits), mode
  of operation (0x6060, 8 bits) and padding (8 bits) into sub-slots 1 to 4, and the entry
  count 4; on the assignment 0x1C12 the count 0, the index 0x1600 into sub-slot 1, and the
  count 1; then the same for the transmit map 0x1A00 (status word, actual position, actual
  velocity, actual torque) and its assignment 0x1C13. This is the protocol of the
  specification, \<open>spec_pdo_writes\<close>.
\<close>

theorem configure_pdo_mapping_write_order:
  assumes "i < n"
  shows "pdo_writes_of i (snd (configure_pdo_mapping True dev n)) = spec_pdo_writes \<and>
         spec_pdo_writes =
           [(0x1600, 0, 0), (0x1600, 1, 0x60400010), (0x1600, 2, 0x60710010),
            (0x1600, 3, 0x60600008), (0x1600, 4, 0x00000008), (0x1600, 0, 4),
            (0x1C12, 0, 0), (0x1C12, 1, 0x1600), (0x1C12, 0, 1),
            (0x1A00, 0, 0), (0x1A00, 1, 0x60410010), (0x1A00, 2, 0x60640020),
            (0x1A00, 3, 0x606C0020), (0x1A00, 4, 0x60770010), (0x1A00, 0, 4),
            (0x1C13, 0, 0), (0x1C13, 1, 0x1A00), (0x1C13, 0, 1)]"
proof -
  have init: "pdo_writes_of i \<lparr>sdo_log = [], retval = 0\<rparr> = []"
    by (simp add: pdo_writes_of_def)
  have a: "pdo_writes_of i (snd (configure_pdo_mapping True dev n)) = spec_pdo_writes"
    using assms
    by (simp add: configure_pdo_mapping_def Let_def pdo_writes_of_foldl init concat_single_upt)
  have b: "spec_pdo_writes =
           [(0x1600, 0, 0), (0x1600, 1, 0x60400010), (0x1600, 2, 0x60710010),
            (0x1600, 3, 0x60600008), (0x1600, 4, 0x00000008), (0x1600, 0, 4),
            (0x1C12, 0, 0), (0x1C12, 1, 0x1600), (0x1C12, 0, 1),
            (0x1A00, 0, 0), (0x1A00, 1, 0x60410010), (0x1A00, 2, 0x60640020),
            (0x1A00, 3, 0x606C0020), (0x1A00, 4, 0x60770010), (0x1A00, 0, 4),
            (0x1C13, 0, 0), (0x1C13, 1, 0x1A00), (0x1C13, 0, 1)]"
    by (simp add: spec_pdo_writes_def spec_map_protocol_4 spec_assignment_protocol_def
          spec_receive_map_def spec_transmit_map_def spec_descriptor_def)
  from a b show ?thesis by (rule conjI)
qed


text \<open>The theorem for the second of two slaves of a device that refuses every sub-slot 2.\<close>

theorem configure_pdo_mapping_write_order_witness:
  "(1::nat) < 2 \<and>
   pdo_writes_of 1 (snd (configure_pdo_mapping True dev_refuses_slot2 2)) =
           [(0x1600, 0, 0), (0x1600, 1, 0x60400010), (0x1600, 2, 0x60710010),
            (0x1600, 3, 0x60600008), (0x1600, 4, 0x00000008), (0x1600, 0, 4),
            (0x1C12, 0, 0), (0x1C12, 1, 0x1600), (0x1C12, 0, 1),
            (0x1A00, 0, 0), (0x1A00, 1, 0x60410010), (0x1A00, 2, 0x60640020),
            (0x1A00, 3, 0x606C0020), (0x1A00, 4, 0x60770010), (0x1A00, 0, 4),
            (0x1C13, 0, 0), (0x1C13, 1, 0x1A00), (0x1C13, 0, 1)]"
  using configure_pdo_mapping_write_order [of 1 2 dev_refuses_slot2] by simp

lemma error_balance_write_counted:
  assumes "0 \<le> v" and "v < 256 ^ n" and "mapping_object index"
    and "\<not> (subindex = 0 \<and> v = 0)"
  shows "error_balance (write_counted dev j index subindex (to_bytes_little v n) s) = error_balance s"
  using assms
  by (auto simp: write_counted_def sdo_write_def error_balance_def counted_failures_def
        counted_request_def to_bytes_little_Some from_bytes_little_endian_small Let_def
        split: prod.splits bool.splits)

lemma error_balance_write_uncounted:
  assumes "0 \<le> v" and "v < 256 ^ n" and "subindex = 0 \<and> v = 0"
  shows "error_balance (write_uncounted dev j index subindex (to_bytes_little v n) s) = error_balance s"
  using assms
  by (auto simp: write_uncounted_def sdo_write_def error_balance_def counted_failures_def
        counted_request_def to_bytes_little_Some from_bytes_little_endian_small Let_def)

lemma error_balance_write_torque_limits:
  "error_balance (write_torque_limits dev j s) = error_balance s"
  by (auto simp: write_torque_limits_def sdo_write_def error_balance_def counted_failures_def
        counted_request_def mapping_object_def Let_def
        split: option.splits prod.splits bool.splits)

lemma error_balance_configure_slave_pdo:
  "error_balance (configure_slave_pdo dev j s) = error_balance s"
  by (simp add: configure_slave_pdo_def configure_rxpdo_map_def configure_rxpdo_assignment_def
        configure_txpdo_map_def configure_txpdo_assignment_def Let_def
        error_balance_write_torque_limits error_balance_write_counted
        error_balance_write_uncounted mapping_object_def)

lemma error_balance_foldl:
  "error_balance (foldl (\<lambda>s j. configure_slave_pdo dev j s) s js) = error_balance s"
  by (induction js arbitrary: s) (simp_all add: error_balance_configure_slave_pdo)

lemma length_spec_pdo_writes: "length spec_pdo_writes = 18"
  by (simp add: spec_pdo_writes_def spec_map_protocol_def spec_assignment_protocol_def
        spec_receive_map_def spec_transmit_map_def)

text \<open>
  Claim C5, as amended. When the state check lets \<^verbatim>\<open>configure_pdo_mapping\<close> through: for
  every slave all 18 writes to the mapping and assignment objects are attempted, whatever
  was refused before; the error counter \<^verbatim>\<open>retval\<close> ends at minus the number of refused
  writes among the counted ones, which are the descriptor, final-count and assignment
  writes (a refused clearing write, of 0 into sub-slot 0, or a refused torque-limit write
  changes nothing); and the call returns \<^verbatim>\<open>True\<close> exactly when the counter is 0.
\<close>

theorem configure_pdo_mapping_error_counter:
  assumes "configure_pdo_mapping True dev n = (ok, s)" and "i < n"
  shows "length (pdo_writes_of i s) = 18 \<and>
         retval s = - int (counted_failures s) \<and>
         ok = (retval s = 0)"
proof -
  let ?s = "foldl (\<lambda>s j. configure_slave_pdo dev j s) \<lparr>sdo_log = [], retval = 0\<rparr> [0..<n]"
  have s: "s = ?s" and ok: "ok = (\<not> retval ?s < 0)"
    using assms(1) by (auto simp: configure_pdo_mapping_def Let_def split: if_splits)
  have "error_balance ?s = error_balance \<lparr>sdo_log = [], retval = 0\<rparr>"
    by (rule error_balance_foldl)
  then have r: "retval s = - int (counted_failures s)"
    by (simp add: s error_balance_def counted_failures_def)
  have init: "pdo_writes_of i \<lparr>sdo_log = [], retval = 0\<rparr> = []"
    by (simp add: pdo_writes_of_def)
  have "pdo_writes_of i s = spec_pdo_writes"
    using assms(2) by (simp add: s pdo_writes_of_foldl concat_single_upt init)
  then have l: "length (pdo_writes_of i s) = 18" by (simp add: length_spec_pdo_writes)
  have o: "ok = (retval s = 0)" using ok r s by auto
  from l r o show ?thesis by blast
qed

text \<open>
  Claim C5 as stated has every failed write decrement the counter. With one slave and a
  device that refuses the first write only, the clearing of 0x1600, one write fails, the
  counter stays 0 and the call reports success.
\<close>

lemma refuses_first_run:
  "sdo_log (configure_slave_pdo dev_refuses_first 0 \<lparr>sdo_log = [], retval = 0\<rparr>) \<noteq> [] \<and>
   retval (configure_slave_pdo dev_refuses_first 0 \<lparr>sdo_log = [], retval = 0\<rparr>) = 0 \<and>
   failures (configure_slave_pdo dev_refuses_first 0 \<lparr>sdo_log = [], retval = 0\<rparr>) = 1"
proof -
  define Q where "Q = (\<lambda>s. sdo_log s \<noteq> [] \<and> retval s = 0 \<and> failures s = 1)"
  have first: "Q (write_uncounted dev_refuses_first 0 0x1600 0x00 (to_bytes_little 0 1)
                    \<lparr>sdo_log = [], retval = 0\<rparr>)"
    by (simp add: Q_def write_uncounted_def sdo_write_def dev_refuses_first_def
          to_bytes_little_def failures_def)
  have c: "Q (write_counted dev_refuses_first j index subindex (to_bytes_little v n) s)"
    if "Q s" and "0 \<le> v" and "v < 256 ^ n" for j index subindex v n s
    using that
    by (simp add: Q_def write_counted_def sdo_write_def dev_refuses_first_def
          to_bytes_little_def failures_def)
  have u: "Q (write_uncounted dev_refuses_first j index subindex (to_bytes_little v n) s)"
    if "Q s" and "0 \<le> v" and "v < 256 ^ n" for j index subindex v n s
    using that
    by (simp add: Q_def write_uncounted_def sdo_write_def dev_refuses_first_def
          to_bytes_little_def failures_def)
  have t: "Q (write_torque_limits dev_refuses_first j s)" if "Q s" for j s
    using that
    by (simp add: Q_def write_torque_limits_def sdo_write_def dev_refuses_first_def
          to_bytes_little_signed_def failures_def)
  have "Q (configure_slave_pdo dev_refuses_first 0 \<lparr>sdo_log = [], retval = 0\<rparr>)"
    unfolding configure_slave_pdo_def configure_rxpdo_map_def configure_rxpdo_assignment_def
      configure_txpdo_map_def configure_txpdo_assignment_def Let_def
    by (intro t c u first) simp_all
  then show ?thesis by (simp add: Q_def)
qed

theorem configure_pdo_mapping_uncounted_failure:
  "fst (configure_pdo_mapping True dev_refuses_first 1) = True \<and>
   retval (snd (configure_pdo_mapping True dev_refuses_first 1)) = 0 \<and>
   failures (snd (configure_pdo_mapping True dev_refuses_first 1)) = 1"
  using refuses_first_run by (simp add: configure_pdo_mapping_def Let_def)

text \<open>The amended theorem on the same run: 18 writes, one failure, none counted.\<close>

theorem configure_pdo_mapping_error_counter_witness:
  "configure_pdo_mapping True dev_refuses_first 1 =
     (True, snd (configure_pdo_mapping True dev_refuses_first 1)) \<and> (0::nat) < 1 \<and>
   length (pdo_writes_of 0 (snd (configure_pdo_mapping True dev_refuses_first 1))) = 18 \<and>
   failures (snd (configure_pdo_mapping True dev_refuses_first 1)) = 1 \<and>
   counted_failures (snd (configure_pdo_mapping True dev_refuses_first 1)) = 0 \<and>
   retval (snd (configure_pdo_mapping True dev_refuses_first 1)) = 0"
proof -
  have r: "configure_pdo_mapping True dev_refuses_first 1 =
     (True, snd (configure_pdo_mapping True dev_refuses_first 1))"
    using refuses_first_run by (simp add: configure_pdo_mapping_def Let_def)
  have f: "failures (snd (configure_pdo_mapping True dev_refuses_first 1)) = 1"
    using refuses_first_run by (simp add: configure_pdo_mapping_def Let_def)
  show ?thesis
    using configure_pdo_mapping_error_counter [OF r, of 0] r f by simp
qed

section \<open>Properties of the wait before the Operational request\<close>

text \<open>
  The two ways the loop is left at evaluation \<open>k\<close> of its test, and the statement that, from
  any evaluation on, the loop returns: with a positive period and sleeps that last at least
  as long as asked, the clock passes one second after finitely many sleeps.
\<close>

lemma timed_out_now:
  assumes "w = Some (Inr (Suc k, True))" and "cnt_at k < (300::int)" and "(1::rat) < clk_at k"
  shows "\<exists>n timed_out.
           w = Some (Inr (n, timed_out)) \<and> k \<le> n
           \<and> (\<forall>j. k \<le> j \<and> j < n \<longrightarrow> cnt_at j < 300)
           \<and> (\<forall>j. k \<le> j \<and> Suc j < n \<longrightarrow> clk_at j \<le> 1)
           \<and> (if timed_out then k < n \<and> 1 < clk_at (n - 1) else 300 \<le> cnt_at n)"
proof -
  have a: "\<forall>j. k \<le> j \<and> j < Suc k \<longrightarrow> cnt_at j < 300"
    using assms(2) by (metis le_antisym less_Suc_eq_le)
  have b: "\<forall>j. k \<le> j \<and> Suc j < Suc k \<longrightarrow> clk_at j \<le> 1" by simp
  show ?thesis
    using assms(1,3) a b by (intro exI [of _ "Suc k"] exI [of _ True]) simp
qed

lemma reached_now:
  assumes "w = Some (Inr (k, False))" and "\<not> cnt_at k < (300::int)"
  shows "\<exists>n timed_out.
           w = Some (Inr (n, timed_out)) \<and> k \<le> n
           \<and> (\<forall>j. k \<le> j \<and> j < n \<longrightarrow> cnt_at j < 300)
           \<and> (\<forall>j. k \<le> j \<and> Suc j < n \<longrightarrow> (clk_at j :: rat) \<le> 1)
           \<and> (if timed_out then k < n \<and> 1 < clk_at (n - 1) else 300 \<le> cnt_at n)"
  using assms by (intro exI [of _ k] exI [of _ False]) simp

lemma wait_for_cycles_returns:
  assumes p: "0 < p" and clock: "\<And>j. of_nat (Suc j) * (p / 1000) \<le> clk_at j"
  shows "\<exists>n timed_out.
           wait_for_cycles p cnt_at clk_at k = Some (Inr (n, timed_out)) \<and> k \<le> n
           \<and> (\<forall>j. k \<le> j \<and> j < n \<longrightarrow> cnt_at j < 300)
           \<and> (\<forall>j. k \<le> j \<and> Suc j < n \<longrightarrow> clk_at j \<le> 1)
           \<and> (if timed_out then k < n \<and> 1 < clk_at (n - 1) else 300 \<le> cnt_at n)"
proof (induction "Suc (nat \<lfloor>1000 / p\<rfloor>) - k" arbitrary: k)
  case 0
  then have big: "nat \<lfloor>1000 / p\<rfloor> < k" by simp
  have "1000 / p < of_int (\<lfloor>1000 / p\<rfloor> + 1)" by linarith
  also have "\<dots> \<le> of_nat (Suc (nat \<lfloor>1000 / p\<rfloor>))" by simp
  also have "\<dots> \<le> of_nat (Suc k)" using big by simp
  finally have "1000 / p < of_nat (Suc k)" .
  then have "1 < of_nat (Suc k) * (p / 1000)" using p by (simp add: field_simps)
  with clock [of k] have late: "1 < clk_at k" by linarith
  show ?case
  proof (cases "cnt_at k < 300")
    case True
    with late p have "wait_for_cycles p cnt_at clk_at k = Some (Inr (Suc k, True))"
      by (subst wait_for_cycles.simps) (simp add: not_less)
    then show ?thesis using True late by (rule timed_out_now)
  next
    case False
    then have "wait_for_cycles p cnt_at clk_at k = Some (Inr (k, False))"
      by (subst wait_for_cycles.simps) simp
    then show ?thesis using False by (rule reached_now)
  qed
next
  case (Suc d)
  show ?case
  proof (cases "cnt_at k < 300")
    case False
    then have "wait_for_cycles p cnt_at clk_at k = Some (Inr (k, False))"
      by (subst wait_for_cycles.simps) simp
    then show ?thesis using False by (rule reached_now)
  next
    case True
    show ?thesis
    proof (cases "1 < clk_at k")
      case late: True
      with True p have "wait_for_cycles p cnt_at clk_at k = Some (Inr (Suc k, True))"
        by (subst wait_for_cycles.simps) (simp add: not_less)
      then show ?thesis using True late by (rule timed_out_now)
    next
      case early: False
      have unf: "wait_for_cycles p cnt_at clk_at k = wait_for_cycles p cnt_at clk_at (Suc k)"
        using True early p by (subst wait_for_cycles.simps) (simp add: not_less)
      have "d = Suc (nat \<lfloor>1000 / p\<rfloor>) - Suc k" using Suc.hyps(2) by simp
      from Suc.hyps(1) [OF this] obtain n timed_out where
        r: "wait_for_cycles p cnt_at clk_at (Suc k) = Some (Inr (n, timed_out))"
        and le: "Suc k \<le> n"
        and cnt: "\<forall>j. Suc k \<le> j \<and> j < n \<longrightarrow> cnt_at j < 300"
        and clk: "\<forall>j. Suc k \<le> j \<and> Suc j < n \<longrightarrow> clk_at j \<le> 1"
        and ex: "if timed_out then Suc k < n \<and> 1 < clk_at (n - 1) else 300 \<le> cnt_at n"
        by blast
      have cnt': "\<forall>j. k \<le> j \<and> j < n \<longrightarrow> cnt_at j < 300"
        using cnt True by (metis Suc_leI le_neq_implies_less)
      have clk': "\<forall>j. k \<le> j \<and> Suc j < n \<longrightarrow> clk_at j \<le> 1"
        using clk early by (metis Suc_leI le_neq_implies_less not_less)
      have ex': "if timed_out then k < n \<and> 1 < clk_at (n - 1) else 300 \<le> cnt_at n"
        using ex by (auto split: if_splits)
      from unf r le cnt' clk' ex' show ?thesis
        by (intro exI [of _ n] exI [of _ timed_out]) simp
    qed
  qed
qed


text \<open>
  Claim C6. Let the period be positive, every slave be in SAFEOP, every sleep last at least
  the period (so the clock after sleep \<open>j\<close> shows at least \<open>j + 1\<close> periods), and the four
  process-data calls return. Then \<^verbatim>\<open>set_slaves_to_op_state_cst\<close> reaches
  \<^verbatim>\<open>master.write_state()\<close> with the Operational state, and before it makes \<open>n\<close> sleeps of one
  period, each after a test that saw fewer than 300 completed cycles and, but for the
  first, after a clock reading of at most one second. The wait ends either because the
  test saw at least 300 cycles, or because the clock read after a sleep showed more than
  one second (a warning is printed); so at most one sleep is started after the first
  second: \<open>n\<close> periods are at most one second plus one period. The two confirmation
  exchanges and the write of the state request follow at once.
\<close>

theorem set_slaves_to_op_waits_for_cycles:
  assumes "0 < p" and "all_safeop env"
    and "\<forall>j. of_nat (Suc j) * (p / 1000) \<le> clock_at env j"
    and "first_send env = Returned sent1" and "first_recv env = Returned wkc1"
    and "second_send env = Returned sent2" and "second_recv env = Returned wkc2"
  shows "\<exists>n timed_out.
           set_slaves_to_op_request p env =
             Some (Inr (replicate n (Op_sleep (p / 1000))
                        @ (if timed_out then [Op_print_wait_exceeded] else [])
                        @ [Op_send, Op_recv, Op_send, Op_recv, Op_write_state OP_STATE]))
           \<and> (\<forall>j. j < n \<longrightarrow> count_at env j < 300)
           \<and> (\<forall>j. Suc j < n \<longrightarrow> clock_at env j \<le> 1)
           \<and> (if timed_out then 0 < n \<and> 1 < clock_at env (n - 1) else 300 \<le> count_at env n)
           \<and> of_nat n * (p / 1000) \<le> 1 + p / 1000"
proof -
  have clock: "\<And>j. of_nat (Suc j) * (p / 1000) \<le> clock_at env j" using assms(3) by blast
  from wait_for_cycles_returns [OF assms(1) clock, of "count_at env" 0]
  obtain n timed_out where
    w: "wait_for_cycles p (count_at env) (clock_at env) 0 = Some (Inr (n, timed_out))"
    and cnt: "\<forall>j. j < n \<longrightarrow> count_at env j < 300"
    and clk: "\<forall>j. Suc j < n \<longrightarrow> clock_at env j \<le> 1"
    and ex: "if timed_out then 0 < n \<and> 1 < clock_at env (n - 1) else 300 \<le> count_at env n"
    by auto
  have r: "set_slaves_to_op_request p env =
             Some (Inr (replicate n (Op_sleep (p / 1000))
                        @ (if timed_out then [Op_print_wait_exceeded] else [])
                        @ [Op_send, Op_recv, Op_send, Op_recv, Op_write_state OP_STATE]))"
    using assms(2,4-7) w by (simp add: set_slaves_to_op_request_def)
  have bound: "of_nat n * (p / 1000) \<le> 1 + p / 1000"
  proof (cases "n \<le> 1")
    case True
    then have "(of_nat n :: rat) \<le> 1" by simp
    then have "of_nat n * (p / 1000) \<le> 1 * (p / 1000)"
      using assms(1) by (intro mult_right_mono) simp_all
    then show ?thesis by simp
  next
    case False
    then obtain j where j: "n = Suc (Suc j)" by (metis Suc_le_eq not_less_eq_eq nat.exhaust not0_implies_Suc le0 One_nat_def)
    then have "clock_at env j \<le> 1" using clk by simp
    with clock [of j] have "of_nat (Suc j) * (p / 1000) \<le> 1" by linarith
    then show ?thesis using j by (simp add: algebra_simps)
  qed
  from r cnt clk ex bound show ?thesis by blast
qed

text \<open>
  The theorem at 2 ms with a worker that completes 100 cycles per test: three sleeps, then
  the exchanges and the request.
\<close>

lemma env0_request:
  "set_slaves_to_op_request 2 env0 =
     Some (Inr [Op_sleep (1 / 500), Op_sleep (1 / 500), Op_sleep (1 / 500),
                Op_send, Op_recv, Op_send, Op_recv, Op_write_state 8])"
  by (simp add: set_slaves_to_op_request_def env0_def wait_for_cycles.simps OP_STATE_def
        eval_nat_numeral)

theorem set_slaves_to_op_waits_for_cycles_witness:
  "(0::rat) < 2 \<and> all_safeop env0 \<and>
   (\<forall>j. of_nat (Suc j) * (2 / 1000) \<le> clock_at env0 j) \<and>
   first_send env0 = Returned 1 \<and> first_recv env0 = Returned 3 \<and>
   second_send env0 = Returned 1 \<and> second_recv env0 = Returned 3 \<and>
   set_slaves_to_op_request 2 env0 =
     Some (Inr [Op_sleep (1 / 500), Op_sleep (1 / 500), Op_sleep (1 / 500),
                Op_send, Op_recv, Op_send, Op_recv, Op_write_state 8]) \<and>
   count_at env0 2 < 300 \<and> 300 \<le> count_at env0 3"
  using set_slaves_to_op_waits_for_cycles [of 2 env0 1 3 1 3] env0_request
  by (simp add: env0_def)

end
